theory Spec2Isabelle
  imports Complex_Main "HOL-Library.Product_Lexorder" "HOL-Library.Multiset"
begin

section \<open>Data model of the ledger (the SQLite schema of \<^verbatim>\<open>init_db\<close>)\<close>

text \<open>
  Amounts are the \<^verbatim>\<open>REAL\<close> columns of the schema, read back as Python floats.
  They are modelled as exact rationals: the arithmetic of the ledger (sums, differences,
  \<^verbatim>\<open>min\<close>, \<^verbatim>\<open>max\<close>, comparisons against the tolerance 0.01) is the one the
  code writes, without binary rounding.

  A calendar date is the triple (year, month, day); Python compares \<^verbatim>\<open>date\<close> objects
  in exactly this lexicographic order.
\<close>

type_synonym money = rat
type_synonym fecha = "int \<times> int \<times> int"

text \<open>
  A date column is \<^verbatim>\<open>TEXT\<close>. What \<^verbatim>\<open>parse_date\<close> can tell apart is: a text in one
  of the three accepted formats (standing for the date it denotes), an empty or NULL text,
  and any other text.
\<close>

datatype fecha_txt = Iso fecha | Vacia | Ilegible

datatype error = ValueError | IntegrityError | InvalidPeriod | Rechazado

record cliente =
  cl_id :: int
  cl_activo :: bool

record plan =
  pl_id :: int
  pl_cliente_id :: int
  pl_importe :: money
  pl_fecha_inicio :: fecha_txt
  pl_fecha_fin :: fecha_txt
  pl_activo :: bool

record devengamiento =
  dv_id :: int
  dv_cliente_id :: int
  dv_plan_id :: "int option"
  dv_periodo_anyo :: int
  dv_periodo_mes :: int
  dv_importe :: money
  dv_fecha_devengada :: fecha

record cobro =
  cb_id :: int
  cb_cliente_id :: int
  cb_fecha :: fecha
  cb_importe :: money

record imputacion =
  dc_devengamiento_id :: int
  dc_cobro_id :: int
  dc_monto :: money

record ajuste =
  aj_cliente_id :: int
  aj_fecha :: fecha
  aj_descripcion :: string
  aj_monto :: money
  aj_tipo :: string
  aj_referencia_devengamiento_id :: "int option"

text \<open>The database: one list of rows per table, in insertion order.\<close>

record db =
  clientes :: "cliente list"
  planes :: "plan list"
  devengamientos :: "devengamiento list"
  cobros :: "cobro list"
  devengamientos_cobros :: "imputacion list"
  ajustes :: "ajuste list"

text \<open>
  \<^verbatim>\<open>INTEGER PRIMARY KEY AUTOINCREMENT\<close>: the next row id is one more than the largest id
  in use (no operation modelled here deletes rows), and the first one is 1.
\<close>

definition nuevo_id :: "int list \<Rightarrow> int" where
  "nuevo_id ids = foldr max ids 0 + 1"

section \<open>Balance of an accrual\<close>

text \<open>
  \<^verbatim>\<open>devengamiento_saldo\<close> is the same function in the three programs:
  \<^verbatim>\<open>SELECT importe FROM devengamientos WHERE id=?\<close>, 0.0 when there is no row, then the two
  \<^verbatim>\<open>COALESCE(SUM(monto),0)\<close> queries and \<^verbatim>\<open>max(0.0, importe + ajustes - aplicado)\<close>.
\<close>

definition aplicado :: "db \<Rightarrow> int \<Rightarrow> money" where
  "aplicado s deveng_id =
     sum_list (map dc_monto (filter (\<lambda>a. dc_devengamiento_id a = deveng_id) (devengamientos_cobros s)))"

definition ajustes_de :: "db \<Rightarrow> int \<Rightarrow> money" where
  "ajustes_de s deveng_id =
     sum_list (map aj_monto
       (filter (\<lambda>a. aj_referencia_devengamiento_id a = Some deveng_id) (ajustes s)))"

definition devengamiento_saldo :: "db \<Rightarrow> int \<Rightarrow> money" where
  "devengamiento_saldo s deveng_id =
     (case find (\<lambda>d. dv_id d = deveng_id) (devengamientos s) of
        None \<Rightarrow> 0
      | Some row \<Rightarrow> max 0 (dv_importe row + ajustes_de s deveng_id - aplicado s deveng_id))"

text \<open>The two \<^verbatim>\<open>SELECT COUNT(1) ... WHERE id=?\<close> helpers.\<close>

definition devengamiento_exists :: "db \<Rightarrow> int \<Rightarrow> bool" where
  "devengamiento_exists s deveng_id = (filter (\<lambda>d. dv_id d = deveng_id) (devengamientos s) \<noteq> [])"

definition cliente_exists :: "db \<Rightarrow> int \<Rightarrow> bool" where
  "cliente_exists s cliente_id = (filter (\<lambda>c. cl_id c = cliente_id) (clientes s) \<noteq> [])"

section \<open>Dates\<close>

text \<open>
  \<^verbatim>\<open>parse_date\<close> of the two web programs returns \<^verbatim>\<open>None\<close> for an empty text
  and raises \<^verbatim>\<open>ValueError\<close> for a text in none of the formats; the one of the
  text-menu program raises \<^verbatim>\<open>ValueError("Fecha vac\'ia")\<close> for an empty text too.
\<close>

fun parse_date :: "fecha_txt \<Rightarrow> error + fecha option" where
  "parse_date (Iso d) = Inr (Some d)"
| "parse_date Vacia = Inr None"
| "parse_date Ilegible = Inl ValueError"

fun parse_date_cli :: "fecha_txt \<Rightarrow> error + fecha" where
  "parse_date_cli (Iso d) = Inr d"
| "parse_date_cli Vacia = Inl ValueError"
| "parse_date_cli Ilegible = Inl ValueError"

text \<open>
  The calendar of \<^verbatim>\<open>datetime.date\<close> (proleptic Gregorian): \<^verbatim>\<open>date(y, m, d)\<close> raises
  \<^verbatim>\<open>ValueError\<close> outside years 1..9999 and months 1..12, and
  \<^verbatim>\<open>d - timedelta(days=1)\<close> is the previous calendar day.
\<close>

definition es_bisiesto :: "int \<Rightarrow> bool" where
  "es_bisiesto y = (y mod 4 = 0 \<and> (y mod 100 \<noteq> 0 \<or> y mod 400 = 0))"

definition dias_del_mes :: "int \<Rightarrow> int \<Rightarrow> int" where
  "dias_del_mes y m =
     (if m = 2 then (if es_bisiesto y then 29 else 28)
      else if m = 4 \<or> m = 6 \<or> m = 9 \<or> m = 11 then 30 else 31)"

definition primer_dia_valido :: "int \<Rightarrow> int \<Rightarrow> bool" where
  "primer_dia_valido y m = (1 \<le> y \<and> y \<le> 9999 \<and> 1 \<le> m \<and> m \<le> 12)"

fun dia_anterior :: "fecha \<Rightarrow> fecha" where
  "dia_anterior (y, m, d) =
     (if 1 < d then (y, m, d - 1)
      else if 1 < m then (y, m - 1, dias_del_mes y (m - 1))
      else (y - 1, 12, 31))"

definition ultimo_dia_mes :: "int \<Rightarrow> int \<Rightarrow> fecha" where
  "ultimo_dia_mes anyo mes =
     (if mes = 12 then (anyo, 12, 31) else dia_anterior (anyo, mes + 1, 1))"

section \<open>Accrual generation\<close>

text \<open>
  The three programs run the same loop over
  \<^verbatim>\<open>SELECT p.* FROM planes p JOIN clientes c ON p.cliente_id = c.id WHERE p.activo = 1 AND c.activo = 1\<close>.
  For each plan they decide whether it is in force, then look for an accrual of the same
  (client, plan, year, month), and insert one when there is none. They differ in the in-force
  test and in the accrual date. An exception raised while a plan is processed is caught inside
  the loop: the plan is reported and the loop goes on.
\<close>

definition planes_activos :: "db \<Rightarrow> plan list" where
  "planes_activos s =
     [p. p \<leftarrow> planes s, c \<leftarrow> clientes s, pl_cliente_id p = cl_id c \<and> pl_activo p \<and> cl_activo c]"

datatype vigencia = Vigente | NoVigente | ErrorPlan

text \<open>
  The web programs (\<^verbatim>\<open>app.py\<close> lines 446-455, \<^verbatim>\<open>appv2.py\<close> lines 1081-1091):
  \<^verbatim>\<open>if fecha_inicio and fecha_inicio > periodo_end\<close>, then
  \<^verbatim>\<open>if fecha_fin and fecha_fin < periodo_start\<close>.
\<close>

definition vigencia_web :: "int \<Rightarrow> int \<Rightarrow> plan \<Rightarrow> vigencia" where
  "vigencia_web anyo mes p =
     (case parse_date (pl_fecha_inicio p) of
        Inl e \<Rightarrow> ErrorPlan
      | Inr fecha_inicio \<Rightarrow>
          (case (if pl_fecha_fin p = Vacia then Inr None else parse_date (pl_fecha_fin p)) of
             Inl e \<Rightarrow> ErrorPlan
           | Inr fecha_fin \<Rightarrow>
               if (case fecha_inicio of None \<Rightarrow> False | Some fi \<Rightarrow> fi > ultimo_dia_mes anyo mes)
               then NoVigente
               else if (case fecha_fin of None \<Rightarrow> False | Some ff \<Rightarrow> ff < (anyo, mes, 1))
               then NoVigente
               else Vigente))"

text \<open>
  The text-menu program (\<^verbatim>\<open>generate_devengamientos_for\<close>, lines 730-743):
  \<^verbatim>\<open>if fecha_inicio > periodo_start\<close>, then, when there is an end date,
  \<^verbatim>\<open>periodo_end = date(year, month, 28)\<close> and \<^verbatim>\<open>if fecha_fin < periodo_end\<close>.
\<close>

definition vigencia_cli :: "int \<Rightarrow> int \<Rightarrow> plan \<Rightarrow> vigencia" where
  "vigencia_cli year month p =
     (case parse_date_cli (pl_fecha_inicio p) of
        Inl e \<Rightarrow> ErrorPlan
      | Inr fecha_inicio \<Rightarrow>
          (case (if pl_fecha_fin p = Vacia then Inr None
                 else map_sum id Some (parse_date_cli (pl_fecha_fin p))) of
             Inl e \<Rightarrow> ErrorPlan
           | Inr fecha_fin \<Rightarrow>
               if fecha_inicio > (year, month, 1) then NoVigente
               else if (case fecha_fin of None \<Rightarrow> False | Some ff \<Rightarrow> ff < (year, month, 28))
               then NoVigente
               else Vigente))"

definition ya_generado :: "db \<Rightarrow> int \<Rightarrow> int \<Rightarrow> int \<Rightarrow> int \<Rightarrow> bool" where
  "ya_generado s cliente_id plan_id anyo mes =
     (filter (\<lambda>d. dv_cliente_id d = cliente_id \<and> dv_plan_id d = Some plan_id \<and>
                   dv_periodo_anyo d = anyo \<and> dv_periodo_mes d = mes) (devengamientos s) \<noteq> [])"

definition insertar_devengamiento ::
  "db \<Rightarrow> int \<Rightarrow> int \<Rightarrow> int \<Rightarrow> int \<Rightarrow> money \<Rightarrow> fecha \<Rightarrow> db" where
  "insertar_devengamiento s cliente_id plan_id anyo mes importe fecha_devengada =
     s\<lparr>devengamientos := devengamientos s @
         [\<lparr>dv_id = nuevo_id (map dv_id (devengamientos s)), dv_cliente_id = cliente_id,
           dv_plan_id = Some plan_id, dv_periodo_anyo = anyo, dv_periodo_mes = mes,
           dv_importe = importe, dv_fecha_devengada = fecha_devengada\<rparr>]\<rparr>"

text \<open>
  One turn of the loop. The state is the database and the counters
  \<^verbatim>\<open>created\<close>, \<^verbatim>\<open>skipped\<close> and \<^verbatim>\<open>errors\<close> (\<^verbatim>\<open>app.py\<close> shows each error and keeps
  no count of them; the count is kept here for the three programs alike).
\<close>

definition procesar_plan ::
  "(plan \<Rightarrow> vigencia) \<Rightarrow> fecha \<Rightarrow> int \<Rightarrow> int \<Rightarrow> db \<times> nat \<times> nat \<times> nat \<Rightarrow> plan
     \<Rightarrow> db \<times> nat \<times> nat \<times> nat" where
  "procesar_plan vig fecha_dev anyo mes st p =
     (case st of (s, created, skipped, errors) \<Rightarrow>
        (case vig p of
           ErrorPlan \<Rightarrow> (s, created, skipped, errors + 1)
         | NoVigente \<Rightarrow> (s, created, skipped + 1, errors)
         | Vigente \<Rightarrow>
             if ya_generado s (pl_cliente_id p) (pl_id p) anyo mes
             then (s, created, skipped + 1, errors)
             else (insertar_devengamiento s (pl_cliente_id p) (pl_id p) anyo mes
                     (pl_importe p) fecha_dev,
                   created + 1, skipped, errors)))"

text \<open>
  \<^verbatim>\<open>app.py\<close> and \<^verbatim>\<open>appv2.py\<close>, the handler of the button "Generar":
  \<^verbatim>\<open>periodo_start = date(anyo, mes, 1)\<close>, \<^verbatim>\<open>periodo_end = ultimo_dia_mes(anyo, mes)\<close>,
  accruals dated \<^verbatim>\<open>periodo_end\<close>.
\<close>

definition generar :: "int \<Rightarrow> int \<Rightarrow> db \<Rightarrow> error + db \<times> nat \<times> nat \<times> nat" where
  "generar anyo mes s =
     (if \<not> primer_dia_valido anyo mes then Inl ValueError
      else Inr (foldl (procesar_plan (vigencia_web anyo mes) (ultimo_dia_mes anyo mes) anyo mes)
                  (s, 0, 0, 0) (planes_activos s)))"

text \<open>
  The text-menu program: a missing (or zero) month or year is today's, a month outside
  1..12 is refused before anything is read, accruals are dated \<^verbatim>\<open>periodo_start\<close>.
\<close>

definition generate_devengamientos_for ::
  "fecha \<Rightarrow> int option \<Rightarrow> int option \<Rightarrow> db \<Rightarrow> error + db \<times> nat \<times> nat \<times> nat" where
  "generate_devengamientos_for hoy month year s =
     (let month = (case month of None \<Rightarrow> fst (snd hoy) | Some m \<Rightarrow> if m = 0 then fst (snd hoy) else m);
          year = (case year of None \<Rightarrow> fst hoy | Some y \<Rightarrow> if y = 0 then fst hoy else y)
      in if \<not> (1 \<le> month \<and> month \<le> 12) then Inl InvalidPeriod
         else if \<not> primer_dia_valido year month then Inl ValueError
         else Inr (foldl (procesar_plan (vigencia_cli year month) (year, month, 1) year month)
                     (s, 0, 0, 0) (planes_activos s)))"

section \<open>Payment allocation\<close>

text \<open>
  \<^verbatim>\<open>SELECT d.* FROM devengamientos d WHERE d.cliente_id=? ORDER BY d.periodo_anyo, d.periodo_mes, d.id\<close>:
  the accruals of the client, sorted by the key (year, month, id).
\<close>

definition clave_orden :: "devengamiento \<Rightarrow> int \<times> int \<times> int" where
  "clave_orden d = (dv_periodo_anyo d, dv_periodo_mes d, dv_id d)"

definition devengamientos_de_cliente :: "db \<Rightarrow> int \<Rightarrow> devengamiento list" where
  "devengamientos_de_cliente s cliente_id =
     sort_key clave_orden (filter (\<lambda>d. dv_cliente_id d = cliente_id) (devengamientos s))"

definition insertar_imputacion :: "db \<Rightarrow> int \<Rightarrow> int \<Rightarrow> money \<Rightarrow> db" where
  "insertar_imputacion s deveng_id cobro_id monto =
     s\<lparr>devengamientos_cobros := devengamientos_cobros s @
         [\<lparr>dc_devengamiento_id = deveng_id, dc_cobro_id = cobro_id, dc_monto = monto\<rparr>]\<rparr>"

subsection \<open>Automatic allocation\<close>

text \<open>
  \<^verbatim>\<open>imputar_automatico_db\<close> of \<^verbatim>\<open>app.py\<close> and \<^verbatim>\<open>appv2.py\<close>. The connection is the
  cached one that \<^verbatim>\<open>devengamiento_saldo\<close> uses too, so a balance read inside the loop
  sees the allocations the loop has inserted so far. The function returns \<^verbatim>\<open>restante\<close>;
  the model returns the database with it.
\<close>

fun imputar_bucle :: "int \<Rightarrow> devengamiento list \<Rightarrow> db \<Rightarrow> money \<Rightarrow> db \<times> money" where
  "imputar_bucle cobro_id [] s restante = (s, restante)"
| "imputar_bucle cobro_id (d # devs) s restante =
     (if restante \<le> 1 / 100 then (s, restante)
      else (let saldo = devengamiento_saldo s (dv_id d) in
            if saldo \<le> 1 / 100 then imputar_bucle cobro_id devs s restante
            else (let monto = min restante saldo in
                  imputar_bucle cobro_id devs
                    (insertar_imputacion s (dv_id d) cobro_id monto) (restante - monto))))"

definition imputar_automatico_db :: "db \<Rightarrow> int \<Rightarrow> int \<Rightarrow> money \<Rightarrow> db \<times> money" where
  "imputar_automatico_db s cobro_id cliente_id importe =
     imputar_bucle cobro_id (devengamientos_de_cliente s cliente_id) s importe"

text \<open>
  \<^verbatim>\<open>imputar_automatico\<close> of the text-menu program runs the same loop on the cursor of
  \<^verbatim>\<open>record_cobro\<close>, which commits after the call. There \<^verbatim>\<open>devengamiento_saldo\<close> opens a
  connection of its own (\<^verbatim>\<open>get_conn\<close> calls \<^verbatim>\<open>sqlite3.connect\<close>) at each call, and that
  connection reads the committed database \<open>s0\<close>, without the rows the loop has inserted and
  not yet committed. The function prints \<^verbatim>\<open>restante\<close>; the model returns it.
\<close>

fun imputar_bucle_cli :: "db \<Rightarrow> int \<Rightarrow> devengamiento list \<Rightarrow> db \<Rightarrow> money \<Rightarrow> db \<times> money" where
  "imputar_bucle_cli s0 cobro_id [] s restante = (s, restante)"
| "imputar_bucle_cli s0 cobro_id (d # devs) s restante =
     (if restante \<le> 1 / 100 then (s, restante)
      else (let saldo = devengamiento_saldo s0 (dv_id d) in
            if saldo \<le> 1 / 100 then imputar_bucle_cli s0 cobro_id devs s restante
            else (let monto_a_imputar = min restante saldo in
                  imputar_bucle_cli s0 cobro_id devs
                    (insertar_imputacion s (dv_id d) cobro_id monto_a_imputar)
                    (restante - monto_a_imputar))))"

definition imputar_automatico :: "db \<Rightarrow> int \<Rightarrow> int \<Rightarrow> money \<Rightarrow> db \<times> money" where
  "imputar_automatico s cobro_id cliente_id importe =
     imputar_bucle_cli s cobro_id (devengamientos_de_cliente s cliente_id) s importe"

subsection \<open>Manual allocation\<close>

text \<open>
  \<^verbatim>\<open>imputar_manual\<close> exists in the text-menu program only. The operator types
  \<^verbatim>\<open>ID:monto,ID:monto\<close>; a pair whose text does not parse raises \<^verbatim>\<open>ValueError\<close>, which
  is caught inside the loop, and the loop goes on with the next pair. Balances are read as in
  \<^verbatim>\<open>imputar_automatico\<close>, from the committed database \<open>s0\<close>. The function returns at once when
  the client has no accrual.
\<close>

datatype entrada = Par int money | Malformada

fun imputar_manual_bucle :: "db \<Rightarrow> int \<Rightarrow> entrada list \<Rightarrow> db \<Rightarrow> money \<Rightarrow> db \<times> money" where
  "imputar_manual_bucle s0 cobro_id [] s restante = (s, restante)"
| "imputar_manual_bucle s0 cobro_id (Malformada # ps) s restante =
     imputar_manual_bucle s0 cobro_id ps s restante"
| "imputar_manual_bucle s0 cobro_id (Par did monto # ps) s restante =
     (if monto \<le> 0 then imputar_manual_bucle s0 cobro_id ps s restante
      else if \<not> devengamiento_exists s0 did then imputar_manual_bucle s0 cobro_id ps s restante
      else (let saldo = devengamiento_saldo s0 did;
                monto1 = (if monto > saldo + 1 / 100 then saldo else monto);
                monto2 = (if monto1 > restante + 1 / 100 then restante else monto1)
            in if monto2 \<le> 0 then imputar_manual_bucle s0 cobro_id ps s restante
               else if restante - monto2 \<le> 1 / 100
               then (insertar_imputacion s did cobro_id monto2, restante - monto2)
               else imputar_manual_bucle s0 cobro_id ps
                      (insertar_imputacion s did cobro_id monto2) (restante - monto2)))"

definition imputar_manual :: "db \<Rightarrow> int \<Rightarrow> int \<Rightarrow> money \<Rightarrow> entrada list \<Rightarrow> db \<times> money" where
  "imputar_manual s cobro_id cliente_id importe pairs =
     (if filter (\<lambda>d. dv_cliente_id d = cliente_id) (devengamientos s) = [] then (s, importe)
      else imputar_manual_bucle s cobro_id pairs s importe)"

subsection \<open>Recording a payment\<close>

definition insertar_cobro :: "db \<Rightarrow> int \<Rightarrow> fecha \<Rightarrow> money \<Rightarrow> db" where
  "insertar_cobro s cliente_id fecha importe =
     s\<lparr>cobros := cobros s @
         [\<lparr>cb_id = nuevo_id (map cb_id (cobros s)), cb_cliente_id = cliente_id,
           cb_fecha = fecha, cb_importe = importe\<rparr>]\<rparr>"

text \<open>
  \<^verbatim>\<open>record_cobro\<close> of the text-menu program: the client must exist and the amount be
  positive; the payment is inserted and committed, and the operator chooses how to allocate
  it. \<^verbatim>\<open>cobro_id\<close> is \<^verbatim>\<open>cur.lastrowid\<close>.
\<close>

datatype opcion = Automatico | Manual "entrada list" | NoImputar

definition record_cobro :: "db \<Rightarrow> int \<Rightarrow> fecha \<Rightarrow> money \<Rightarrow> opcion \<Rightarrow> db" where
  "record_cobro s cliente_id fecha importe op =
     (if \<not> cliente_exists s cliente_id then s
      else if importe \<le> 0 then s
      else (let cobro_id = nuevo_id (map cb_id (cobros s));
                s1 = insertar_cobro s cliente_id fecha importe
            in case op of
                 Automatico \<Rightarrow> fst (imputar_automatico s1 cobro_id cliente_id importe)
               | Manual pairs \<Rightarrow> fst (imputar_manual s1 cobro_id cliente_id importe pairs)
               | NoImputar \<Rightarrow> s1))"

text \<open>
  The form "Registrar cobro" of the web programs: the client comes from a list of the
  active clients (0 stands for none chosen), \<^verbatim>\<open>appv2.py\<close> refuses an amount that is not
  positive and \<^verbatim>\<open>app.py\<close> does not look at it; the payment is always allocated
  automatically. A client id that is not in the table fails the foreign key, and nothing is
  written.
\<close>

definition registrar_cobro :: "bool \<Rightarrow> db \<Rightarrow> int \<Rightarrow> fecha \<Rightarrow> money \<Rightarrow> db" where
  "registrar_cobro v2 s cliente_id fecha importe =
     (if cliente_id = 0 then s
      else if v2 \<and> importe \<le> 0 then s
      else if \<not> cliente_exists s cliente_id then s
      else fst (imputar_automatico_db (insertar_cobro s cliente_id fecha importe)
                  (nuevo_id (map cb_id (cobros s))) cliente_id importe))"

section \<open>Adjustments\<close>

text \<open>
  \<^verbatim>\<open>INSERT INTO ajustes\<close> with \<^verbatim>\<open>PRAGMA foreign_keys = ON\<close>: the client must exist, and a
  reference that is not NULL must be the id of an accrual; otherwise SQLite raises
  \<^verbatim>\<open>IntegrityError\<close> and the row is not written.
\<close>

definition insertar_ajuste :: "db \<Rightarrow> ajuste \<Rightarrow> error + db" where
  "insertar_ajuste s a =
     (if \<not> cliente_exists s (aj_cliente_id a) then Inl IntegrityError
      else case aj_referencia_devengamiento_id a of
             None \<Rightarrow> Inr (s\<lparr>ajustes := ajustes s @ [a]\<rparr>)
           | Some r \<Rightarrow>
               if devengamiento_exists s r then Inr (s\<lparr>ajustes := ajustes s @ [a]\<rparr>)
               else Inl IntegrityError)"

text \<open>
  The test \<^verbatim>\<open>if ref_id and not devengamiento_exists(ref_id)\<close> of \<^verbatim>\<open>registrar_ajuste\<close>
  (and \<^verbatim>\<open>if ref_id:\<close> of \<^verbatim>\<open>appv2.py\<close>): in Python \<^verbatim>\<open>None\<close> and \<^verbatim>\<open>0\<close> are both false.
\<close>

definition limpiar_referencia :: "db \<Rightarrow> int option \<Rightarrow> int option" where
  "limpiar_referencia s ref_id =
     (case ref_id of
        None \<Rightarrow> None
      | Some r \<Rightarrow> if r \<noteq> 0 \<and> \<not> devengamiento_exists s r then None else Some r)"

definition tipo_map :: "string \<Rightarrow> (string \<times> int) option" where
  "tipo_map tipo_opcion =
     (if tipo_opcion = ''1'' then Some (''bonificacion'', - 1)
      else if tipo_opcion = ''2'' then Some (''recargo'', 1)
      else if tipo_opcion = ''3'' then Some (''adicional'', 1)
      else if tipo_opcion = ''4'' then Some (''nota_credito'', - 1)
      else if tipo_opcion = ''5'' then Some (''nota_debito'', 1)
      else if tipo_opcion = ''6'' then Some (''otro'', 0)
      else None)"

text \<open>
  \<^verbatim>\<open>registrar_ajuste\<close> of the text-menu program. The inputs are what the operator types,
  already parsed: \<open>es_negativo\<close> is the answer to the question asked for the type "otro".
  A refused input prints a message and returns; an exception of the insert is caught and
  printed.
\<close>

definition registrar_ajuste ::
  "db \<Rightarrow> int \<Rightarrow> fecha \<Rightarrow> string \<Rightarrow> string \<Rightarrow> money \<Rightarrow> bool \<Rightarrow> int option \<Rightarrow> error + db" where
  "registrar_ajuste s cliente_id fecha descripcion tipo_opcion monto es_negativo ref_id =
     (if \<not> cliente_exists s cliente_id then Inl Rechazado
      else if descripcion = [] then Inl Rechazado
      else case tipo_map tipo_opcion of
             None \<Rightarrow> Inl Rechazado
           | Some (tipo, signo) \<Rightarrow>
               if monto \<le> 0 then Inl Rechazado
               else insertar_ajuste s
                      \<lparr>aj_cliente_id = cliente_id, aj_fecha = fecha, aj_descripcion = descripcion,
                       aj_monto = (if signo = - 1 then - \<bar>monto\<bar>
                                   else if signo = 1 then \<bar>monto\<bar>
                                   else if \<not> es_negativo then \<bar>monto\<bar> else - \<bar>monto\<bar>),
                       aj_tipo = tipo,
                       aj_referencia_devengamiento_id = limpiar_referencia s ref_id\<rparr>)"

text \<open>
  The form "Registrar ajuste" of \<^verbatim>\<open>appv2.py\<close> (lines 1496-1525): the amount is signed as
  typed.
\<close>

definition registrar_ajuste_web ::
  "db \<Rightarrow> int \<Rightarrow> fecha \<Rightarrow> string \<Rightarrow> money \<Rightarrow> string \<Rightarrow> int option \<Rightarrow> error + db" where
  "registrar_ajuste_web s cliente_id fecha descripcion m tipo ref_id =
     (if cliente_id = 0 then Inl Rechazado
      else if descripcion = [] then Inl Rechazado
      else insertar_ajuste s
             \<lparr>aj_cliente_id = cliente_id, aj_fecha = fecha, aj_descripcion = descripcion,
              aj_monto = m, aj_tipo = tipo,
              aj_referencia_devengamiento_id = limpiar_referencia s ref_id\<rparr>)"

section \<open>Sequences of operations\<close>

text \<open>
  The operations of the three programs that write to the ledger tables modelled here. An
  operation that fails or is refused leaves the database as it was.
\<close>

datatype operacion =
    OpRecordCobro int fecha money opcion
  | OpRegistrarCobro bool int fecha money
  | OpGenerar int int
  | OpGenerarCli fecha "int option" "int option"
  | OpAjuste int fecha string string money bool "int option"
  | OpAjusteWeb int fecha string money string "int option"

fun ejecutar :: "db \<Rightarrow> operacion \<Rightarrow> db" where
  "ejecutar s (OpRecordCobro cliente_id fecha importe op) =
     record_cobro s cliente_id fecha importe op"
| "ejecutar s (OpRegistrarCobro v2 cliente_id fecha importe) =
     registrar_cobro v2 s cliente_id fecha importe"
| "ejecutar s (OpGenerar anyo mes) =
     (case generar anyo mes s of Inl e \<Rightarrow> s | Inr r \<Rightarrow> fst r)"
| "ejecutar s (OpGenerarCli hoy month year) =
     (case generate_devengamientos_for hoy month year s of Inl e \<Rightarrow> s | Inr r \<Rightarrow> fst r)"
| "ejecutar s (OpAjuste cliente_id fecha descripcion tipo_opcion monto es_negativo ref_id) =
     (case registrar_ajuste s cliente_id fecha descripcion tipo_opcion monto es_negativo ref_id of
        Inl e \<Rightarrow> s | Inr s' \<Rightarrow> s')"
| "ejecutar s (OpAjusteWeb cliente_id fecha descripcion m tipo ref_id) =
     (case registrar_ajuste_web s cliente_id fecha descripcion m tipo ref_id of
        Inl e \<Rightarrow> s | Inr s' \<Rightarrow> s')"

section \<open>Auxiliary notions for the proofs\<close>

text \<open>
  A plan is settled for a period in a database when the loop would not create an accrual
  for it: it is not in force (or its dates cannot be read), or its accrual is there.
\<close>

definition resuelto :: "(plan \<Rightarrow> vigencia) \<Rightarrow> int \<Rightarrow> int \<Rightarrow> db \<Rightarrow> plan \<Rightarrow> bool" where
  "resuelto vig anyo mes s p =
     (vig p \<noteq> Vigente \<or> ya_generado s (pl_cliente_id p) (pl_id p) anyo mes)"

text \<open>
  The constraint \<^verbatim>\<open>UNIQUE(cliente_id, plan_id, periodo_anyo, periodo_mes)\<close>; SQL counts
  rows with a NULL \<^verbatim>\<open>plan_id\<close> as different from each other.
\<close>

definition sin_duplicados :: "db \<Rightarrow> bool" where
  "sin_duplicados s =
     distinct (map (\<lambda>d. (dv_cliente_id d, dv_plan_id d, dv_periodo_anyo d, dv_periodo_mes d))
                (filter (\<lambda>d. dv_plan_id d \<noteq> None) (devengamientos s)))"

text \<open>An accrual row as the generator writes it for one of the plans \<open>ps\<close>.\<close>

definition generado_de :: "int \<Rightarrow> int \<Rightarrow> fecha \<Rightarrow> plan list \<Rightarrow> devengamiento \<Rightarrow> bool" where
  "generado_de anyo mes f ps d =
     (dv_periodo_anyo d = anyo \<and> dv_periodo_mes d = mes \<and> dv_fecha_devengada d = f \<and>
      list_ex (\<lambda>p. dv_plan_id d = Some (pl_id p) \<and> dv_cliente_id d = pl_cliente_id p \<and>
                   dv_importe d = pl_importe p) ps)"

text \<open>An allocation row, and a database with allocation rows appended.\<close>

definition imp :: "int \<Rightarrow> int \<Rightarrow> money \<Rightarrow> imputacion" where
  "imp deveng_id cobro_id monto =
     \<lparr>dc_devengamiento_id = deveng_id, dc_cobro_id = cobro_id, dc_monto = monto\<rparr>"

definition agregar :: "db \<Rightarrow> imputacion list \<Rightarrow> db" where
  "agregar s xs = s\<lparr>devengamientos_cobros := devengamientos_cobros s @ xs\<rparr>"

definition nuevas_imputaciones :: "db \<Rightarrow> db \<Rightarrow> imputacion list" where
  "nuevas_imputaciones s s' = drop (length (devengamientos_cobros s)) (devengamientos_cobros s')"

text \<open>
  The amounts the oldest-first walk hands out, as a function of the amount to distribute
  and of the list of (accrual id, balance) in visiting order. The automatic allocation loops
  are proved equal to it below (\<open>imputar_bucle_reparto\<close>, \<open>imputar_bucle_cli_reparto\<close>).
\<close>

fun reparto :: "money \<Rightarrow> (int \<times> money) list \<Rightarrow> (int \<times> money) list" where
  "reparto r [] = []"
| "reparto r ((i, b) # xs) =
     (if r \<le> 1 / 100 then []
      else if b \<le> 1 / 100 then reparto r xs
      else (i, min r b) # reparto (r - min r b) xs)"

definition saldos :: "db \<Rightarrow> devengamiento list \<Rightarrow> (int \<times> money) list" where
  "saldos s ds = map (\<lambda>d. (dv_id d, devengamiento_saldo s (dv_id d))) ds"

definition imputaciones :: "int \<Rightarrow> (int \<times> money) list \<Rightarrow> imputacion list" where
  "imputaciones cobro_id xs = map (\<lambda>(i, m). imp i cobro_id m) xs"

text \<open>The total outstanding balance of a client, and the total allocated from a payment.\<close>

definition saldo_total :: "db \<Rightarrow> int \<Rightarrow> money" where
  "saldo_total s cliente_id =
     sum_list (map (\<lambda>d. devengamiento_saldo s (dv_id d))
       (filter (\<lambda>d. dv_cliente_id d = cliente_id) (devengamientos s)))"

definition imputado :: "db \<Rightarrow> int \<Rightarrow> money" where
  "imputado s cobro_id =
     sum_list (map dc_monto (filter (\<lambda>a. dc_cobro_id a = cobro_id) (devengamientos_cobros s)))"

text \<open>
  The state of the payments that every operation preserves: an allocation belongs to a
  payment of the table (the foreign key), and a payment of positive amount is allocated for
  at most its amount plus the tolerance 0.01.
\<close>

definition imputaciones_con_cobro :: "db \<Rightarrow> bool" where
  "imputaciones_con_cobro s =
     list_all (\<lambda>a. dc_cobro_id a \<in> cb_id ` set (cobros s)) (devengamientos_cobros s)"

definition cobros_acotados :: "db \<Rightarrow> bool" where
  "cobros_acotados s =
     list_all (\<lambda>c. 0 < cb_importe c \<longrightarrow> imputado s (cb_id c) \<le> cb_importe c + 1 / 100) (cobros s)"

definition libro_valido :: "db \<Rightarrow> bool" where
  "libro_valido s = (imputaciones_con_cobro s \<and> cobros_acotados s)"

section \<open>Example ledgers\<close>

text \<open>
  The scenario of the specification: an accrual of 300 with an adjustment of -1000 and an
  allocation of 50 has balance 0, not a negative one.
\<close>

definition db_saldo :: db where
  "db_saldo =
     \<lparr>clientes = [\<lparr>cl_id = 1, cl_activo = True\<rparr>], planes = [],
      devengamientos =
        [\<lparr>dv_id = 7, dv_cliente_id = 1, dv_plan_id = None, dv_periodo_anyo = 2024,
          dv_periodo_mes = 1, dv_importe = 300, dv_fecha_devengada = (2024, 1, 31)\<rparr>],
      cobros = [\<lparr>cb_id = 1, cb_cliente_id = 1, cb_fecha = (2024, 2, 1), cb_importe = 50\<rparr>],
      devengamientos_cobros = [\<lparr>dc_devengamiento_id = 7, dc_cobro_id = 1, dc_monto = 50\<rparr>],
      ajustes =
        [\<lparr>aj_cliente_id = 1, aj_fecha = (2024, 2, 2), aj_descripcion = ''nota'',
          aj_monto = - 1000, aj_tipo = ''nota_credito'',
          aj_referencia_devengamiento_id = Some 7\<rparr>]\<rparr>"


text \<open>
  One active client with one active plan of 1000 that starts on 2024-01-15 and has no end
  date; nothing generated yet.
\<close>

definition db_plan :: db where
  "db_plan =
     \<lparr>clientes = [\<lparr>cl_id = 1, cl_activo = True\<rparr>],
      planes = [\<lparr>pl_id = 1, pl_cliente_id = 1, pl_importe = 1000,
                 pl_fecha_inicio = Iso (2024, 1, 15), pl_fecha_fin = Vacia, pl_activo = True\<rparr>],
      devengamientos = [], cobros = [], devengamientos_cobros = [], ajustes = []\<rparr>"

definition dev_plan :: "int \<Rightarrow> fecha \<Rightarrow> devengamiento" where
  "dev_plan mes f =
     \<lparr>dv_id = 1, dv_cliente_id = 1, dv_plan_id = Some 1, dv_periodo_anyo = 2024,
      dv_periodo_mes = mes, dv_importe = 1000, dv_fecha_devengada = f\<rparr>"


text \<open>
  Two accruals of 500 of client 1, for 2024-02 (id 1) and 2024-01 (id 2), both unpaid, and
  a payment of the given amount recorded and not yet allocated.
\<close>

definition dev_a :: devengamiento where
  "dev_a = \<lparr>dv_id = 1, dv_cliente_id = 1, dv_plan_id = None, dv_periodo_anyo = 2024,
            dv_periodo_mes = 2, dv_importe = 500, dv_fecha_devengada = (2024, 2, 29)\<rparr>"

definition dev_b :: devengamiento where
  "dev_b = \<lparr>dv_id = 2, dv_cliente_id = 1, dv_plan_id = None, dv_periodo_anyo = 2024,
            dv_periodo_mes = 1, dv_importe = 500, dv_fecha_devengada = (2024, 1, 31)\<rparr>"

definition db_dos :: "money \<Rightarrow> db" where
  "db_dos importe =
     \<lparr>clientes = [\<lparr>cl_id = 1, cl_activo = True\<rparr>], planes = [],
      devengamientos = [dev_a, dev_b],
      cobros = [\<lparr>cb_id = 1, cb_cliente_id = 1, cb_fecha = (2024, 3, 1), cb_importe = importe\<rparr>],
      devengamientos_cobros = [], ajustes = []\<rparr>"


text \<open>Accrual 7 of 300 of client 1, and no payment yet.\<close>

definition db_siete :: db where
  "db_siete =
     \<lparr>clientes = [\<lparr>cl_id = 1, cl_activo = True\<rparr>], planes = [],
      devengamientos =
        [\<lparr>dv_id = 7, dv_cliente_id = 1, dv_plan_id = None, dv_periodo_anyo = 2024,
          dv_periodo_mes = 1, dv_importe = 300, dv_fecha_devengada = (2024, 1, 31)\<rparr>],
      cobros = [], devengamientos_cobros = [], ajustes = []\<rparr>"

definition cobro_cien :: cobro where
  "cobro_cien = \<lparr>cb_id = 1, cb_cliente_id = 1, cb_fecha = (2024, 2, 1), cb_importe = 100\<rparr>"

section \<open>Balance calculator: results\<close>

text \<open>
  C1. For an accrual id present in the store (with the row \<open>row\<close> the lookup returns), the
  balance calculator returns the maximum of 0 and the accrual amount plus the sum of the
  amounts of the adjustments that reference the accrual minus the sum of the amounts of the
  allocations applied to it; the returned balance is never negative, whatever the
  allocations and adjustments are.
\<close>

theorem devengamiento_saldo_formula:
  "find (\<lambda>d. dv_id d = i) (devengamientos s) = Some row \<Longrightarrow>
     devengamiento_saldo s i =
       max 0 (dv_importe row
              + (\<Sum>a\<leftarrow>filter (\<lambda>a. aj_referencia_devengamiento_id a = Some i) (ajustes s). aj_monto a)
              - (\<Sum>a\<leftarrow>filter (\<lambda>a. dc_devengamiento_id a = i) (devengamientos_cobros s). dc_monto a))
     \<and> 0 \<le> devengamiento_saldo s i"
  by (simp add: devengamiento_saldo_def ajustes_de_def aplicado_def)

theorem devengamiento_saldo_formula_witness:
  "find (\<lambda>d. dv_id d = 7) (devengamientos db_saldo) \<noteq> None
   \<and> devengamiento_saldo db_saldo 7 = max 0 (300 + (- 1000) - 50)
   \<and> devengamiento_saldo db_saldo 7 = 0"
  using devengamiento_saldo_formula [of 7 db_saldo "hd (devengamientos db_saldo)"]
  by (simp add: db_saldo_def)

section \<open>Accrual generation: results\<close>

lemmas gen_defs = generate_devengamientos_for_def generar_def planes_activos_def procesar_plan_def
  vigencia_cli_def vigencia_web_def primer_dia_valido_def ya_generado_def insertar_devengamiento_def
  ultimo_dia_mes_def dias_del_mes_def es_bisiesto_def nuevo_id_def

subsection \<open>One turn of the loop\<close>

lemma ya_generado_insertar:
  "ya_generado (insertar_devengamiento s c p a m i f) c' p' a m =
     (ya_generado s c' p' a m \<or> (c' = c \<and> p' = p))"
  by (auto simp: ya_generado_def insertar_devengamiento_def)

lemma procesar_plan_tablas:
  "planes (fst (procesar_plan vig f a m st p)) = planes (fst st)"
  "clientes (fst (procesar_plan vig f a m st p)) = clientes (fst st)"
  by (auto simp: procesar_plan_def insertar_devengamiento_def split: prod.splits vigencia.splits)

lemma procesar_plan_resuelto_self:
  "resuelto vig a m (fst (procesar_plan vig f a m st p)) p"
  by (auto simp: procesar_plan_def resuelto_def ya_generado_insertar
           split: prod.splits vigencia.splits)

lemma procesar_plan_resuelto_mono:
  "resuelto vig a m (fst st) q \<Longrightarrow> resuelto vig a m (fst (procesar_plan vig f a m st p)) q"
  by (auto simp: procesar_plan_def resuelto_def ya_generado_insertar
           split: prod.splits vigencia.splits)

lemma procesar_plan_quieto:
  "resuelto vig a m s p \<Longrightarrow>
   \<exists>k' e'. procesar_plan vig f a m (s, c, k, e) p = (s, c, k', e')"
  by (auto simp: procesar_plan_def resuelto_def split: vigencia.splits)

text \<open>A plan that is not in force gets no accrual, whatever the database holds.\<close>

lemma procesar_plan_no_vigente:
  "vig p \<noteq> Vigente \<Longrightarrow> fst (procesar_plan vig f a m st p) = fst st"
  by (auto simp: procesar_plan_def split: prod.splits vigencia.splits)

lemma insertar_sin_duplicados:
  "sin_duplicados s \<Longrightarrow> \<not> ya_generado s c p a m \<Longrightarrow>
   sin_duplicados (insertar_devengamiento s c p a m i f)"
  by (auto simp: sin_duplicados_def ya_generado_def insertar_devengamiento_def filter_empty_conv)

lemma procesar_plan_sin_duplicados:
  "sin_duplicados (fst st) \<Longrightarrow> sin_duplicados (fst (procesar_plan vig f a m st p))"
  by (auto simp: procesar_plan_def insertar_sin_duplicados split: prod.splits vigencia.splits)

lemma procesar_plan_nuevos:
  "\<exists>nuevos. devengamientos (fst (procesar_plan vig f a m st p)) = devengamientos (fst st) @ nuevos
     \<and> list_all (generado_de a m f [p]) nuevos
     \<and> fst (snd (procesar_plan vig f a m st p)) = fst (snd st) + length nuevos"
  by (auto simp: procesar_plan_def insertar_devengamiento_def generado_de_def
           split: prod.splits vigencia.splits)

lemma generado_de_mono:
  "generado_de a m f ps d \<Longrightarrow> set ps \<subseteq> set qs \<Longrightarrow> generado_de a m f qs d"
  by (auto simp: generado_de_def list_ex_iff)

subsection \<open>The whole loop\<close>

lemma bucle_resuelto_mono:
  "resuelto vig a m (fst st) q \<Longrightarrow> resuelto vig a m (fst (foldl (procesar_plan vig f a m) st ps)) q"
  by (induction ps arbitrary: st) (auto simp: procesar_plan_resuelto_mono)

lemma bucle_resuelto:
  "q \<in> set ps \<Longrightarrow> resuelto vig a m (fst (foldl (procesar_plan vig f a m) st ps)) q"
proof (induction ps arbitrary: st)
  case Nil
  then show ?case by simp
next
  case (Cons p ps)
  show ?case
  proof (cases "q \<in> set ps")
    case True
    then show ?thesis using Cons.IH by simp
  next
    case False
    with Cons.prems have "q = p" by simp
    then show ?thesis
      using bucle_resuelto_mono [OF procesar_plan_resuelto_self] by simp
  qed
qed

lemma bucle_tablas:
  "planes (fst (foldl (procesar_plan vig f a m) st ps)) = planes (fst st)"
  "clientes (fst (foldl (procesar_plan vig f a m) st ps)) = clientes (fst st)"
  by (induction ps arbitrary: st) (auto simp: procesar_plan_tablas)

lemma bucle_quieto:
  "(\<And>p. p \<in> set ps \<Longrightarrow> resuelto vig a m s p) \<Longrightarrow>
   \<exists>k' e'. foldl (procesar_plan vig f a m) (s, c, k, e) ps = (s, c, k', e')"
proof (induction ps arbitrary: k e)
  case Nil
  then show ?case by simp
next
  case (Cons p ps)
  from Cons.prems have "resuelto vig a m s p" by simp
  then obtain k1 e1 where "procesar_plan vig f a m (s, c, k, e) p = (s, c, k1, e1)"
    using procesar_plan_quieto by blast
  moreover have "\<exists>k' e'. foldl (procesar_plan vig f a m) (s, c, k1, e1) ps = (s, c, k', e')"
    using Cons.IH Cons.prems by simp
  ultimately show ?case by simp
qed

lemma bucle_idempotente:
  assumes "foldl (procesar_plan vig f a m) (s, 0, 0, 0) (planes_activos s) = (s1, c1, k1, e1)"
  shows "\<exists>k2 e2. foldl (procesar_plan vig f a m) (s1, 0, 0, 0) (planes_activos s1) = (s1, 0, k2, e2)"
proof -
  have s1: "s1 = fst (foldl (procesar_plan vig f a m) (s, 0, 0, 0) (planes_activos s))"
    using assms by simp
  have "planes_activos s1 = planes_activos s"
    by (simp add: s1 planes_activos_def bucle_tablas)
  moreover have "\<And>p. p \<in> set (planes_activos s) \<Longrightarrow> resuelto vig a m s1 p"
    unfolding s1 by (rule bucle_resuelto)
  ultimately show ?thesis
    using bucle_quieto [of "planes_activos s1" vig a m s1 f 0 0 0] by simp
qed

lemma bucle_sin_duplicados:
  "sin_duplicados (fst st) \<Longrightarrow> sin_duplicados (fst (foldl (procesar_plan vig f a m) st ps))"
  by (induction ps arbitrary: st) (auto simp: procesar_plan_sin_duplicados)

lemma bucle_nuevos:
  "\<exists>nuevos. devengamientos (fst (foldl (procesar_plan vig f a m) st ps)) = devengamientos (fst st) @ nuevos
     \<and> list_all (generado_de a m f ps) nuevos
     \<and> fst (snd (foldl (procesar_plan vig f a m) st ps)) = fst (snd st) + length nuevos"
proof (induction ps arbitrary: st)
  case Nil
  then show ?case by simp
next
  case (Cons p ps)
  obtain n1 where n1:
    "devengamientos (fst (procesar_plan vig f a m st p)) = devengamientos (fst st) @ n1"
    "list_all (generado_de a m f [p]) n1"
    "fst (snd (procesar_plan vig f a m st p)) = fst (snd st) + length n1"
    using procesar_plan_nuevos by blast
  obtain n2 where n2:
    "devengamientos (fst (foldl (procesar_plan vig f a m) (procesar_plan vig f a m st p) ps))
       = devengamientos (fst (procesar_plan vig f a m st p)) @ n2"
    "list_all (generado_de a m f ps) n2"
    "fst (snd (foldl (procesar_plan vig f a m) (procesar_plan vig f a m st p) ps))
       = fst (snd (procesar_plan vig f a m st p)) + length n2"
    using Cons.IH by blast
  have "list_all (generado_de a m f (p # ps)) (n1 @ n2)"
    using n1(2) n2(2) by (auto simp: list_all_iff intro: generado_de_mono)
  then show ?case using n1 n2 by (intro exI [of _ "n1 @ n2"]) simp
qed

subsection \<open>Idempotence\<close>

text \<open>
  C5. Generation for a fixed (year, month) is idempotent, in the web programs and in the
  text-menu program alike: when a run returns the database \<open>s1\<close>, a second run for the same
  period on \<open>s1\<close> creates zero accruals and returns \<open>s1\<close> unchanged; and a run keeps the
  accruals free of duplicates per (client, plan, year, month).
\<close>

theorem generacion_idempotente:
  "(generar anyo mes s = Inr (s1, c1, k1, e1) \<longrightarrow>
      (\<exists>k2 e2. generar anyo mes s1 = Inr (s1, 0, k2, e2)) \<and>
      (sin_duplicados s \<longrightarrow> sin_duplicados s1))
   \<and> (generate_devengamientos_for hoy month year s = Inr (t1, c1', k1', e1') \<longrightarrow>
      (\<exists>k2 e2. generate_devengamientos_for hoy month year t1 = Inr (t1, 0, k2, e2)) \<and>
      (sin_duplicados s \<longrightarrow> sin_duplicados t1))"
proof (intro conjI impI)
  assume g: "generar anyo mes s = Inr (s1, c1, k1, e1)"
  then have v: "primer_dia_valido anyo mes"
    and b: "foldl (procesar_plan (vigencia_web anyo mes) (ultimo_dia_mes anyo mes) anyo mes)
              (s, 0, 0, 0) (planes_activos s) = (s1, c1, k1, e1)"
    by (auto simp: generar_def split: if_splits)
  show "\<exists>k2 e2. generar anyo mes s1 = Inr (s1, 0, k2, e2)"
    using bucle_idempotente [OF b] v by (simp add: generar_def)
  assume "sin_duplicados s"
  then show "sin_duplicados s1"
    using bucle_sin_duplicados [of "(s, 0, 0, 0)" "vigencia_web anyo mes"
            "ultimo_dia_mes anyo mes" anyo mes "planes_activos s"] b
    by simp
next
  define mo where "mo = (case month of None \<Rightarrow> fst (snd hoy)
                          | Some m \<Rightarrow> if m = 0 then fst (snd hoy) else m)"
  define ye where "ye = (case year of None \<Rightarrow> fst hoy | Some y \<Rightarrow> if y = 0 then fst hoy else y)"
  assume g: "generate_devengamientos_for hoy month year s = Inr (t1, c1', k1', e1')"
  then have v: "1 \<le> mo \<and> mo \<le> 12" "primer_dia_valido ye mo"
    and b: "foldl (procesar_plan (vigencia_cli ye mo) (ye, mo, 1) ye mo)
              (s, 0, 0, 0) (planes_activos s) = (t1, c1', k1', e1')"
    by (auto simp: generate_devengamientos_for_def Let_def mo_def ye_def split: if_splits)
  show "\<exists>k2 e2. generate_devengamientos_for hoy month year t1 = Inr (t1, 0, k2, e2)"
    using bucle_idempotente [OF b] v
    by (simp add: generate_devengamientos_for_def Let_def mo_def [symmetric] ye_def [symmetric])
  assume "sin_duplicados s"
  then show "sin_duplicados t1"
    using bucle_sin_duplicados [of "(s, 0, 0, 0)" "vigencia_cli ye mo" "(ye, mo, 1)" ye mo
            "planes_activos s"] b
    by simp
qed

theorem generacion_idempotente_witness:
  "generar 2024 1 db_plan = Inr (db_plan\<lparr>devengamientos := [dev_plan 1 (2024, 1, 31)]\<rparr>, 1, 0, 0)
   \<and> generar 2024 1 (db_plan\<lparr>devengamientos := [dev_plan 1 (2024, 1, 31)]\<rparr>)
       = Inr (db_plan\<lparr>devengamientos := [dev_plan 1 (2024, 1, 31)]\<rparr>, 0, 1, 0)
   \<and> generate_devengamientos_for (2024, 6, 1) (Some 3) (Some 2024) db_plan
       = Inr (db_plan\<lparr>devengamientos := [dev_plan 3 (2024, 3, 1)]\<rparr>, 1, 0, 0)
   \<and> generate_devengamientos_for (2024, 6, 1) (Some 3) (Some 2024)
         (db_plan\<lparr>devengamientos := [dev_plan 3 (2024, 3, 1)]\<rparr>)
       = Inr (db_plan\<lparr>devengamientos := [dev_plan 3 (2024, 3, 1)]\<rparr>, 0, 1, 0)
   \<and> sin_duplicados db_plan
   \<and> sin_duplicados (db_plan\<lparr>devengamientos := [dev_plan 1 (2024, 1, 31)]\<rparr>)"
  using generacion_idempotente
    [of 2024 1 db_plan "db_plan\<lparr>devengamientos := [dev_plan 1 (2024, 1, 31)]\<rparr>" 1 0 0
        "(2024, 6, 1)" "Some 3" "Some 2024"
        "db_plan\<lparr>devengamientos := [dev_plan 3 (2024, 3, 1)]\<rparr>" 1 0 0]
  by (simp add: db_plan_def dev_plan_def gen_defs sin_duplicados_def)

subsection \<open>Which plans are in force\<close>

text \<open>
  The web programs follow the rule of the specification: a plan that starts after the last
  day of the period, or ends before its first day, is not in force; a plan with no end date
  is in force exactly from the period that contains its start date.
\<close>

lemma vigencia_web_inicio:
  "pl_fecha_inicio p = Iso fi \<Longrightarrow> fi > ultimo_dia_mes anyo mes \<Longrightarrow> vigencia_web anyo mes p \<noteq> Vigente"
  by (cases "pl_fecha_fin p") (auto simp: vigencia_web_def)

lemma vigencia_web_fin:
  "pl_fecha_fin p = Iso ff \<Longrightarrow> ff < (anyo, mes, 1) \<Longrightarrow> vigencia_web anyo mes p \<noteq> Vigente"
  by (cases "pl_fecha_inicio p") (auto simp: vigencia_web_def)

lemma vigencia_web_sin_fin:
  "pl_fecha_inicio p = Iso fi \<Longrightarrow> pl_fecha_fin p = Vacia \<Longrightarrow>
   vigencia_web anyo mes p = (if fi \<le> ultimo_dia_mes anyo mes then Vigente else NoVigente)"
  by (auto simp: vigencia_web_def)

lemma ultimo_dia_mes_calendario:
  "1 \<le> mes \<Longrightarrow> mes \<le> 12 \<Longrightarrow> ultimo_dia_mes anyo mes = (anyo, mes, dias_del_mes anyo mes)"
  by (auto simp: ultimo_dia_mes_def dias_del_mes_def)

text \<open>
  The text-menu program skips the same plans and more: it compares the start date with the
  first day of the period and the end date with day 28.
\<close>

lemma vigencia_cli_inicio:
  "pl_fecha_inicio p = Iso fi \<Longrightarrow> fi > ultimo_dia_mes year month \<Longrightarrow> 1 \<le> month \<Longrightarrow> month \<le> 12 \<Longrightarrow>
   vigencia_cli year month p \<noteq> Vigente"
  by (cases "pl_fecha_fin p"; cases fi)
     (auto simp: vigencia_cli_def ultimo_dia_mes_calendario dias_del_mes_def split: if_splits)

lemma vigencia_cli_fin:
  "pl_fecha_fin p = Iso ff \<Longrightarrow> ff < (year, month, 1) \<Longrightarrow> vigencia_cli year month p \<noteq> Vigente"
  by (cases "pl_fecha_inicio p"; cases ff) (auto simp: vigencia_cli_def)

lemma vigencia_cli_sin_fin:
  "pl_fecha_inicio p = Iso fi \<Longrightarrow> pl_fecha_fin p = Vacia \<Longrightarrow>
   vigencia_cli year month p = (if fi \<le> (year, month, 1) then Vigente else NoVigente)"
  by (auto simp: vigencia_cli_def)

text \<open>
  C6. A plan with no end date is in force for every period from its start date onward.
  The plan of \<open>db_plan\<close> starts on 2024-01-15 and has no end date. For January 2024 the web
  programs create its accrual; the text-menu program skips the plan, since
  \<^verbatim>\<open>fecha_inicio > periodo_start\<close> holds.
\<close>

theorem vigencia_mes_de_inicio:
  "generate_devengamientos_for (2024, 6, 1) (Some 1) (Some 2024) db_plan = Inr (db_plan, 0, 1, 0)
   \<and> generar 2024 1 db_plan
       = Inr (db_plan\<lparr>devengamientos := [dev_plan 1 (2024, 1, 31)]\<rparr>, 1, 0, 0)"
  by (simp add: db_plan_def dev_plan_def gen_defs)

subsection \<open>Date and amount of a created accrual\<close>

text \<open>
  In the web programs every accrual a run creates is dated to the last calendar day of the
  period and carries the amount of its plan as stored when the run reads it.
\<close>

lemma generar_nuevos:
  assumes "generar anyo mes s = Inr (s1, c, k, e)"
  shows "\<exists>nuevos. devengamientos s1 = devengamientos s @ nuevos \<and> length nuevos = c \<and>
           list_all (generado_de anyo mes (anyo, mes, dias_del_mes anyo mes) (planes_activos s)) nuevos"
proof -
  from assms have v: "primer_dia_valido anyo mes"
    and b: "foldl (procesar_plan (vigencia_web anyo mes) (ultimo_dia_mes anyo mes) anyo mes)
              (s, 0, 0, 0) (planes_activos s) = (s1, c, k, e)"
    by (auto simp: generar_def split: if_splits)
  have u: "ultimo_dia_mes anyo mes = (anyo, mes, dias_del_mes anyo mes)"
    using v by (simp add: primer_dia_valido_def ultimo_dia_mes_calendario)
  show ?thesis
    using bucle_nuevos [of "vigencia_web anyo mes" "ultimo_dia_mes anyo mes" anyo mes
            "(s, 0, 0, 0)" "planes_activos s"] b u
    by auto
qed

text \<open>
  C7. Every accrual created for a period is dated to the last calendar day of the month.
  The text-menu program dates it \<^verbatim>\<open>periodo_start\<close>: for March 2024 the accrual of the plan
  of \<open>db_plan\<close> is dated 2024-03-01, while the last day of the month is 2024-03-31. Its
  amount is the amount of the plan.
\<close>

theorem fecha_devengada_cli:
  "generate_devengamientos_for (2024, 6, 1) (Some 3) (Some 2024) db_plan
     = Inr (db_plan\<lparr>devengamientos := [dev_plan 3 (2024, 3, 1)]\<rparr>, 1, 0, 0)
   \<and> ultimo_dia_mes 2024 3 = (2024, 3, 31)
   \<and> generar 2024 3 db_plan
       = Inr (db_plan\<lparr>devengamientos := [dev_plan 3 (2024, 3, 31)]\<rparr>, 1, 0, 0)"
  by (simp add: db_plan_def dev_plan_def gen_defs)

section \<open>Manual allocation: results\<close>

lemmas man_defs = imputar_manual_def devengamiento_exists_def devengamiento_saldo_def
  ajustes_de_def aplicado_def insertar_imputacion_def imp_def







section \<open>Adjustments: results\<close>

lemmas aj_defs = registrar_ajuste_def registrar_ajuste_web_def insertar_ajuste_def
  limpiar_referencia_def tipo_map_def cliente_exists_def devengamiento_exists_def

text \<open>
  A reference to an accrual that does not exist is cleared and the adjustment is recorded,
  whenever the reference is not 0.
\<close>

lemma registrar_ajuste_referencia_inexistente:
  assumes "r \<noteq> 0" "\<not> devengamiento_exists s r" "cliente_exists s cliente_id"
    "descripcion \<noteq> []" "tipo_map tipo_opcion = Some (tipo, signo)" "0 < monto"
  shows "\<exists>m. registrar_ajuste s cliente_id fecha descripcion tipo_opcion monto es_negativo (Some r)
           = Inr (s\<lparr>ajustes := ajustes s @
               [\<lparr>aj_cliente_id = cliente_id, aj_fecha = fecha, aj_descripcion = descripcion,
                 aj_monto = m, aj_tipo = tipo, aj_referencia_devengamiento_id = None\<rparr>]\<rparr>)
           \<and> \<bar>m\<bar> = monto"
  using assms
  by (auto simp: registrar_ajuste_def insertar_ajuste_def limpiar_referencia_def)

lemma registrar_ajuste_web_referencia_inexistente:
  assumes "r \<noteq> 0" "\<not> devengamiento_exists s r" "cliente_exists s cliente_id"
    "cliente_id \<noteq> 0" "descripcion \<noteq> []"
  shows "registrar_ajuste_web s cliente_id fecha descripcion m tipo (Some r)
           = Inr (s\<lparr>ajustes := ajustes s @
               [\<lparr>aj_cliente_id = cliente_id, aj_fecha = fecha, aj_descripcion = descripcion,
                 aj_monto = m, aj_tipo = tipo, aj_referencia_devengamiento_id = None\<rparr>]\<rparr>)"
  using assms
  by (auto simp: registrar_ajuste_web_def insertar_ajuste_def limpiar_referencia_def)

text \<open>
  C9. An adjustment whose referenced accrual does not exist is still recorded, with the
  reference cleared, and the operation does not fail. With the reference 0, which is the id
  of no accrual, both programs pass the Python test \<^verbatim>\<open>if ref_id\<close> as false, keep the
  reference, and the insert fails the foreign key: nothing is recorded.
\<close>

theorem registrar_ajuste_referencia_cero:
  "\<not> devengamiento_exists db_plan 0
   \<and> registrar_ajuste db_plan 1 (2024, 2, 1) ''recargo por mora'' ''2'' 50 False (Some 0)
       = Inl IntegrityError
   \<and> registrar_ajuste_web db_plan 1 (2024, 2, 1) ''recargo por mora'' 50 ''Recargo'' (Some 0)
       = Inl IntegrityError
   \<and> registrar_ajuste db_plan 1 (2024, 2, 1) ''recargo por mora'' ''2'' 50 False (Some 5)
       = Inr (db_plan\<lparr>ajustes := [\<lparr>aj_cliente_id = 1, aj_fecha = (2024, 2, 1),
               aj_descripcion = ''recargo por mora'', aj_monto = 50, aj_tipo = ''recargo'',
               aj_referencia_devengamiento_id = None\<rparr>]\<rparr>)"
  by (simp add: db_plan_def aj_defs)

section \<open>Automatic allocation: results\<close>

lemmas auto_defs = imputar_automatico_db_def imputar_automatico_def devengamientos_de_cliente_def
  clave_orden_def devengamiento_saldo_def ajustes_de_def aplicado_def insertar_imputacion_def imp_def
  saldo_total_def nuevas_imputaciones_def

subsection \<open>The loops compute the oldest-first distribution\<close>

lemma agregar_nil [simp]: "agregar s [] = s"
  by (simp add: agregar_def)

lemma agregar_agregar [simp]: "agregar (agregar s xs) ys = agregar s (xs @ ys)"
  by (simp add: agregar_def)

lemma insertar_imputacion_agregar: "insertar_imputacion s i c m = agregar s [imp i c m]"
  by (simp add: insertar_imputacion_def agregar_def imp_def)

lemma saldo_agregar_otro:
  "\<forall>a \<in> set xs. dc_devengamiento_id a \<noteq> i \<Longrightarrow>
   devengamiento_saldo (agregar s xs) i = devengamiento_saldo s i"
proof -
  assume "\<forall>a \<in> set xs. dc_devengamiento_id a \<noteq> i"
  then have "filter (\<lambda>a. dc_devengamiento_id a = i) xs = []"
    by (simp add: filter_empty_conv)
  then show ?thesis
    by (simp add: devengamiento_saldo_def agregar_def aplicado_def ajustes_de_def
             split: option.splits)
qed

lemma saldos_agregar_otros:
  "\<forall>a \<in> set xs. dc_devengamiento_id a \<notin> dv_id ` set ds \<Longrightarrow> saldos (agregar s xs) ds = saldos s ds"
  unfolding saldos_def
  by (rule map_cong [OF refl]) (simp, metis imageI saldo_agregar_otro)

lemma imputar_bucle_reparto:
  "distinct (map dv_id ds) \<Longrightarrow>
   imputar_bucle c ds s r =
     (agregar s (imputaciones c (reparto r (saldos s ds))),
      r - sum_list (map snd (reparto r (saldos s ds))))"
proof (induction ds arbitrary: s r)
  case Nil
  then show ?case by (simp add: saldos_def imputaciones_def)
next
  case (Cons d ds)
  let ?b = "devengamiento_saldo s (dv_id d)"
  let ?s' = "agregar s [imp (dv_id d) c (min r ?b)]"
  have d: "distinct (map dv_id ds)" and nd: "dv_id d \<notin> dv_id ` set ds"
    using Cons.prems by auto
  have sal: "saldos ?s' ds = saldos s ds"
    by (rule saldos_agregar_otros) (simp add: imp_def nd)
  have hd: "saldos s (d # ds) = (dv_id d, ?b) # saldos s ds"
    by (simp add: saldos_def)
  show ?case
  proof (cases "r \<le> 1 / 100")
    case True
    then show ?thesis by (simp add: hd imputaciones_def)
  next
    case r: False
    show ?thesis
    proof (cases "?b \<le> 1 / 100")
      case True
      then show ?thesis using r Cons.IH [OF d] by (simp add: hd)
    next
      case False
      then show ?thesis
        using r Cons.IH [OF d, of ?s' "r - min r ?b"]
        by (simp add: hd sal Let_def insertar_imputacion_agregar imputaciones_def)
    qed
  qed
qed

lemma imputar_bucle_cli_reparto:
  "imputar_bucle_cli s0 c ds s r =
     (agregar s (imputaciones c (reparto r (saldos s0 ds))),
      r - sum_list (map snd (reparto r (saldos s0 ds))))"
proof (induction ds arbitrary: s r)
  case Nil
  then show ?case by (simp add: saldos_def imputaciones_def)
next
  case (Cons d ds)
  let ?b = "devengamiento_saldo s0 (dv_id d)"
  have hd: "saldos s0 (d # ds) = (dv_id d, ?b) # saldos s0 ds"
    by (simp add: saldos_def)
  show ?case
    using Cons.IH
    by (simp add: hd Let_def insertar_imputacion_agregar imputaciones_def)
qed

subsection \<open>Totals of the distribution\<close>

lemma reparto_ids: "fst ` set (reparto r xs) \<subseteq> fst ` set xs"
proof (induction xs arbitrary: r)
  case Nil
  then show ?case by simp
next
  case (Cons x xs)
  obtain i b where x: "x = (i, b)" by (cases x)
  show ?case using Cons.IH [of r] Cons.IH [of "r - min r b"] unfolding x by auto
qed

lemma reparto_pos: "(i, m) \<in> set (reparto r xs) \<Longrightarrow> 1 / 100 < m"
proof (induction xs arbitrary: r)
  case Nil
  then show ?case by simp
next
  case (Cons x xs)
  obtain j b where x: "x = (j, b)" by (cases x)
  show ?case using Cons.prems Cons.IH unfolding x by (auto split: if_splits)
qed

lemma reparto_total_le:
  "0 \<le> r \<Longrightarrow> 0 \<le> sum_list (map snd (reparto r xs)) \<and> sum_list (map snd (reparto r xs)) \<le> r"
proof (induction xs arbitrary: r)
  case Nil
  then show ?case by simp
next
  case (Cons x xs)
  obtain i b where x: "x = (i, b)" by (cases x)
  have "0 \<le> r - min r b" by simp
  from Cons.IH [OF this] Cons.IH [OF Cons.prems] Cons.prems
  show ?case unfolding x by auto
qed






lemma reparto_agotado: "r \<le> 1 / 100 \<Longrightarrow> reparto r xs = []"
  by (cases xs) auto

lemma reparto_append:
  "reparto r (xs @ ys) = reparto r xs @ reparto (r - sum_list (map snd (reparto r xs))) ys"
proof (induction xs arbitrary: r)
  case Nil
  then show ?case by simp
next
  case (Cons x xs)
  obtain i b where x: "x = (i, b)" by (cases x)
  show ?case
  proof (cases "r \<le> 1 / 100")
    case True
    then show ?thesis using x by (simp add: reparto_agotado)
  next
    case r: False
    show ?thesis
    proof (cases "b \<le> 1 / 100")
      case True
      then show ?thesis using r x Cons.IH [of r] by simp
    next
      case False
      then show ?thesis using r x Cons.IH [of "r - min r b"] by (simp add: algebra_simps)
    qed
  qed
qed

lemma reparto_completo:
  "1 / 100 < r - sum_list (map snd (reparto r xs)) \<Longrightarrow>
   reparto r xs = filter (\<lambda>x. 1 / 100 < snd x) xs"
proof (induction xs arbitrary: r)
  case Nil
  then show ?case by simp
next
  case (Cons x xs)
  obtain i b where x: "x = (i, b)" by (cases x)
  show ?case
  proof (cases "r \<le> 1 / 100")
    case True
    then have "reparto r (x # xs) = []" by (rule reparto_agotado)
    then show ?thesis using Cons.prems True by simp
  next
    case r: False
    show ?thesis
    proof (cases "b \<le> 1 / 100")
      case True
      then show ?thesis using r x Cons.IH [of r] Cons.prems by simp
    next
      case b: False
      show ?thesis
      proof (cases "r < b")
        case True
        then have m: "min r b = r" by simp
        have "reparto (r - r) xs = []" by (rule reparto_agotado) simp
        then have "sum_list (map snd (reparto r (x # xs))) = r"
          using r b x m by simp
        then show ?thesis using Cons.prems by simp
      next
        case False
        then have m: "min r b = b" by simp
        have "1 / 100 < (r - b) - sum_list (map snd (reparto (r - b) xs))"
          using Cons.prems r b x m by simp
        then have "reparto (r - b) xs = filter (\<lambda>x. 1 / 100 < snd x) xs"
          by (rule Cons.IH)
        then show ?thesis using r b x m by simp
      qed
    qed
  qed
qed

subsection \<open>The two programs allocate alike\<close>

lemma distinct_map_sort_key: "distinct (map f (sort_key k xs)) = distinct (map f xs)"
proof -
  have "mset (map f (sort_key k xs)) = mset (map f xs)" by simp
  then show ?thesis by (rule mset_eq_imp_distinct_iff)
qed


lemma distinct_ids_cliente:
  "distinct (map dv_id (devengamientos s)) \<Longrightarrow>
   distinct (map dv_id (devengamientos_de_cliente s cliente_id))"
  by (simp add: devengamientos_de_cliente_def distinct_map_sort_key distinct_map_filter)

lemma imputar_automatico_db_reparto:
  "distinct (map dv_id (devengamientos s)) \<Longrightarrow>
   imputar_automatico_db s c cl A =
     (agregar s (imputaciones c (reparto A (saldos s (devengamientos_de_cliente s cl)))),
      A - sum_list (map snd (reparto A (saldos s (devengamientos_de_cliente s cl)))))"
  unfolding imputar_automatico_db_def
  by (rule imputar_bucle_reparto) (rule distinct_ids_cliente)

lemma imputar_automatico_reparto:
  "imputar_automatico s c cl A =
     (agregar s (imputaciones c (reparto A (saldos s (devengamientos_de_cliente s cl)))),
      A - sum_list (map snd (reparto A (saldos s (devengamientos_de_cliente s cl)))))"
  unfolding imputar_automatico_def by (rule imputar_bucle_cli_reparto)

text \<open>
  With accrual ids that are distinct (they are a primary key), the loop of the text-menu
  program, which reads balances from the committed database, and the loop of the web
  programs, which reads them from the running one, insert the same allocations and leave
  the same remainder.
\<close>

lemma imputar_automatico_igual:
  "distinct (map dv_id (devengamientos s)) \<Longrightarrow>
   imputar_automatico s c cl A = imputar_automatico_db s c cl A"
  by (simp add: imputar_automatico_reparto imputar_automatico_db_reparto)

lemma total_imputaciones: "sum_list (map dc_monto (imputaciones c xs)) = sum_list (map snd xs)"
  by (induction xs) (auto simp: imputaciones_def imp_def)

lemma cobro_imputaciones: "list_all (\<lambda>a. dc_cobro_id a = c) (imputaciones c xs)"
  by (induction xs) (auto simp: imputaciones_def imp_def)




subsection \<open>Conservation\<close>




subsection \<open>Order of the walk\<close>

lemma reparto_id_mem: "x \<in> set (reparto r xs) \<Longrightarrow> fst x \<in> fst ` set xs"
  using reparto_ids [of r xs] by blast

lemma filter_reparto_fuera:
  "fst ` set xs \<inter> S = {} \<Longrightarrow> filter (\<lambda>x. fst x \<in> S) (reparto r xs) = []"
  unfolding filter_empty_conv using reparto_id_mem [of _ r xs] by blast

lemma filter_reparto_dentro:
  "fst ` set xs \<subseteq> S \<Longrightarrow> filter (\<lambda>x. fst x \<in> S) (reparto r xs) = reparto r xs"
  unfolding filter_id_conv using reparto_id_mem [of _ r xs] by blast

lemma reparto_cabeza:
  assumes "i \<notin> fst ` set post"
  shows "filter (\<lambda>x. fst x \<in> {i}) (reparto r ((i, b) # post)) =
           (if 1 / 100 < r \<and> 1 / 100 < b then [(i, min r b)] else [])"
proof -
  have "\<And>r'. filter (\<lambda>x. fst x \<in> {i}) (reparto r' post) = []"
    by (rule filter_reparto_fuera) (use assms in auto)
  then show ?thesis by simp
qed

lemma reparto_de:
  assumes "distinct (map fst (pre @ (i, b) # post))"
  shows "filter (\<lambda>x. fst x \<in> fst ` set pre) (reparto r (pre @ (i, b) # post)) = reparto r pre"
    and "filter (\<lambda>x. fst x \<in> {i}) (reparto r (pre @ (i, b) # post)) =
           (if 1 / 100 < r - sum_list (map snd (reparto r pre)) \<and> 1 / 100 < b
            then [(i, min (r - sum_list (map snd (reparto r pre))) b)] else [])"
proof -
  let ?r1 = "r - sum_list (map snd (reparto r pre))"
  have ap: "reparto r (pre @ (i, b) # post) = reparto r pre @ reparto ?r1 ((i, b) # post)"
    by (rule reparto_append)
  have disj: "fst ` set ((i, b) # post) \<inter> fst ` set pre = {}"
    using assms by auto
  have ipre: "fst ` set pre \<inter> {i} = {}" and ipost: "i \<notin> fst ` set post"
    using assms by auto
  show "filter (\<lambda>x. fst x \<in> fst ` set pre) (reparto r (pre @ (i, b) # post)) = reparto r pre"
    unfolding ap filter_append
    by (simp only: filter_reparto_fuera [OF disj] filter_reparto_dentro [OF subset_refl] append_Nil2)
  show "filter (\<lambda>x. fst x \<in> {i}) (reparto r (pre @ (i, b) # post)) =
           (if 1 / 100 < ?r1 \<and> 1 / 100 < b then [(i, min ?r1 b)] else [])"
    unfolding ap filter_append
    by (simp only: filter_reparto_fuera [OF ipre] reparto_cabeza [OF ipost] append_Nil)
qed

lemma reparto_anterior_pagado:
  assumes d: "distinct (map fst (pre @ (i, b) # post))"
    and r1: "1 / 100 < r - sum_list (map snd (reparto r pre))"
    and x: "(j, bj) \<in> set pre"
  shows "filter (\<lambda>x. fst x \<in> {j}) (reparto r (pre @ (i, b) # post)) =
           (if 1 / 100 < bj then [(j, bj)] else [])"
proof -
  let ?r1 = "r - sum_list (map snd (reparto r pre))"
  have ap: "reparto r (pre @ (i, b) # post) = reparto r pre @ reparto ?r1 ((i, b) # post)"
    by (rule reparto_append)
  have co: "reparto r pre = filter (\<lambda>x. 1 / 100 < snd x) pre"
    using r1 by (rule reparto_completo)
  have jn: "fst ` set ((i, b) # post) \<inter> {j} = {}"
    using d x by (auto simp: rev_image_eqI)
  have dp: "distinct (map fst pre)" using d by simp
  have "filter (\<lambda>x. fst x \<in> {j}) pre = [(j, bj)]"
    using dp x
  proof (induction pre)
    case Nil
    then show ?case by simp
  next
    case (Cons y ys)
    show ?case
    proof (cases "y = (j, bj)")
      case True
      then have "j \<notin> fst ` set ys" using Cons.prems(1) by auto
      then have "filter (\<lambda>x. fst x \<in> {j}) ys = []"
        by (auto simp: filter_empty_conv rev_image_eqI)
      then show ?thesis using True by simp
    next
      case False
      then have "(j, bj) \<in> set ys" using Cons.prems(2) by simp
      moreover have "fst y \<noteq> j" using Cons.prems(1) calculation by (auto simp: rev_image_eqI)
      ultimately show ?thesis using Cons.IH Cons.prems(1) by simp
    qed
  qed
  moreover have "filter (\<lambda>x. fst x \<in> {j}) (filter (\<lambda>x. 1 / 100 < snd x) pre) =
                 filter (\<lambda>x. 1 / 100 < snd x) (filter (\<lambda>x. fst x \<in> {j}) pre)"
    by (simp add: conj_commute)
  ultimately have "filter (\<lambda>x. fst x \<in> {j}) (filter (\<lambda>x. 1 / 100 < snd x) pre) =
               (if 1 / 100 < bj then [(j, bj)] else [])"
    by simp
  then show ?thesis
    unfolding ap filter_append co
    by (simp only: filter_reparto_fuera [OF jn] append_Nil2)
qed

lemma nuevas_agregar: "nuevas_imputaciones s (agregar s n) = n"
  by (simp add: nuevas_imputaciones_def agregar_def)

lemma filter_imputaciones:
  "filter (\<lambda>a. P (dc_devengamiento_id a)) (imputaciones c al) =
     imputaciones c (filter (\<lambda>x. P (fst x)) al)"
  by (induction al) (auto simp: imputaciones_def imp_def)

lemma ids_saldos: "map fst (saldos s ds) = map dv_id ds"
  by (simp add: saldos_def comp_def)

lemma saldos_append:
  "saldos s (pre @ d # post) =
     saldos s pre @ (dv_id d, devengamiento_saldo s (dv_id d)) # saldos s post"
  by (simp add: saldos_def)

lemma aplicado_agregar:
  "aplicado (agregar s n) j =
     aplicado s j + sum_list (map dc_monto (filter (\<lambda>a. dc_devengamiento_id a = j) n))"
  by (simp add: aplicado_def agregar_def)

lemma saldo_agregar:
  "devengamiento_saldo (agregar s n) j =
     (case find (\<lambda>d. dv_id d = j) (devengamientos s) of
        None \<Rightarrow> 0
      | Some row \<Rightarrow> max 0 (dv_importe row + ajustes_de s j - aplicado s j
                            - sum_list (map dc_monto (filter (\<lambda>a. dc_devengamiento_id a = j) n))))"
proof -
  have "devengamientos (agregar s n) = devengamientos s" "ajustes_de (agregar s n) j = ajustes_de s j"
    by (simp_all add: agregar_def ajustes_de_def)
  then show ?thesis
    by (simp add: devengamiento_saldo_def aplicado_agregar algebra_simps split: option.splits)
qed

lemma saldo_agregar_pagado:
  "sum_list (map dc_monto (filter (\<lambda>a. dc_devengamiento_id a = j) n)) = devengamiento_saldo s j \<Longrightarrow>
   devengamiento_saldo (agregar s n) j = 0"
  unfolding saldo_agregar by (auto simp: devengamiento_saldo_def split: option.splits)

lemma saldo_agregar_sin:
  "filter (\<lambda>a. dc_devengamiento_id a = j) n = [] \<Longrightarrow>
   devengamiento_saldo (agregar s n) j = devengamiento_saldo s j"
  unfolding saldo_agregar by (simp add: devengamiento_saldo_def split: option.splits)

lemma orden_cliente:
  "sorted (map clave_orden (devengamientos_de_cliente s cliente_id))"
  "set (devengamientos_de_cliente s cliente_id) =
     {d \<in> set (devengamientos s). dv_cliente_id d = cliente_id}"
  by (auto simp: devengamientos_de_cliente_def)

text \<open>
  C8. Automatic allocation visits the accruals of the client in ascending
  (year, month, id) order. Let \<open>d\<close> be any accrual of the client and \<open>pre\<close> the accruals
  before it in that order. What is left of the payment when \<open>d\<close> is visited is the amount
  minus what the run has allocated to the accruals of \<open>pre\<close>; if that and the balance of
  \<open>d\<close> are both above 0.01, \<open>d\<close> receives exactly one allocation, of the minimum of the two,
  and otherwise none. And when \<open>d\<close> receives an allocation, no accrual before it is left with
  a balance above 0.01. The text-menu program inserts the same rows as the web programs.
\<close>

theorem imputar_automatico_orden:
  assumes ids: "distinct (map dv_id (devengamientos s))"
    and run: "imputar_automatico_db s cobro_id cliente_id A = (s', R)"
    and pos: "devengamientos_de_cliente s cliente_id = pre @ d # post"
  shows "imputar_automatico s cobro_id cliente_id A = (s', R)
     \<and> sorted (map clave_orden (pre @ d # post))
     \<and> set (pre @ d # post) = {x \<in> set (devengamientos s). dv_cliente_id x = cliente_id}
     \<and> filter (\<lambda>a. dc_devengamiento_id a = dv_id d) (nuevas_imputaciones s s') =
         (let restante = A - sum_list (map dc_monto
                (filter (\<lambda>a. dc_devengamiento_id a \<in> dv_id ` set pre) (nuevas_imputaciones s s')));
              saldo = devengamiento_saldo s (dv_id d)
          in if 1 / 100 < restante \<and> 1 / 100 < saldo
             then [imp (dv_id d) cobro_id (min restante saldo)] else [])
     \<and> (filter (\<lambda>a. dc_devengamiento_id a = dv_id d) (nuevas_imputaciones s s') \<noteq> [] \<longrightarrow>
          (\<forall>x \<in> set pre. devengamiento_saldo s' (dv_id x) \<le> 1 / 100))"
proof -
  let ?i = "dv_id d" and ?b = "devengamiento_saldo s (dv_id d)"
  have 0: "imputar_automatico s cobro_id cliente_id A = (s', R)"
    using imputar_automatico_igual [OF ids] run by simp
  let ?xs = "saldos s pre @ (?i, ?b) # saldos s post"
  let ?al = "reparto A ?xs"
  let ?n = "imputaciones cobro_id ?al"
  let ?r1 = "A - sum_list (map snd (reparto A (saldos s pre)))"
  have xs: "saldos s (devengamientos_de_cliente s cliente_id) = ?xs"
    unfolding pos by (rule saldos_append)
  have s': "s' = agregar s ?n"
    using run imputar_automatico_db_reparto [OF ids, of cobro_id cliente_id A] xs by simp
  have n: "nuevas_imputaciones s s' = ?n"
    unfolding s' by (rule nuevas_agregar)
  have "distinct (map dv_id (pre @ d # post))"
    using distinct_ids_cliente [OF ids, of cliente_id] pos by simp
  then have dis: "distinct (map fst ?xs)"
    using ids_saldos [of s "pre @ d # post"] by (simp add: saldos_append)
  have idpre: "fst ` set (saldos s pre) = dv_id ` set pre"
    using ids_saldos [of s pre] by (metis list.set_map)
  have fpre: "filter (\<lambda>a. dc_devengamiento_id a \<in> dv_id ` set pre) ?n
                = imputaciones cobro_id (reparto A (saldos s pre))"
    unfolding filter_imputaciones [of "\<lambda>j. j \<in> dv_id ` set pre"]
    using reparto_de(1) [OF dis] idpre by simp
  have tpre: "A - sum_list (map dc_monto
                (filter (\<lambda>a. dc_devengamiento_id a \<in> dv_id ` set pre) ?n)) = ?r1"
    unfolding fpre by (simp add: total_imputaciones)
  have fd: "filter (\<lambda>a. dc_devengamiento_id a = ?i) ?n =
              (if 1 / 100 < ?r1 \<and> 1 / 100 < ?b then [imp ?i cobro_id (min ?r1 ?b)] else [])"
    unfolding filter_imputaciones [of "\<lambda>j. j = ?i"]
    using reparto_de(2) [OF dis, of A] by (simp add: imputaciones_def)
  have 1: "sorted (map clave_orden (pre @ d # post))"
    "set (pre @ d # post) = {x \<in> set (devengamientos s). dv_cliente_id x = cliente_id}"
    using orden_cliente [of s cliente_id] unfolding pos by simp_all
  have 3: "filter (\<lambda>a. dc_devengamiento_id a = dv_id d) (nuevas_imputaciones s s') =
         (let restante = A - sum_list (map dc_monto
                (filter (\<lambda>a. dc_devengamiento_id a \<in> dv_id ` set pre) (nuevas_imputaciones s s')));
              saldo = devengamiento_saldo s (dv_id d)
          in if 1 / 100 < restante \<and> 1 / 100 < saldo
             then [imp (dv_id d) cobro_id (min restante saldo)] else [])"
    unfolding n Let_def tpre by (rule fd)
  have 4: "filter (\<lambda>a. dc_devengamiento_id a = dv_id d) (nuevas_imputaciones s s') \<noteq> [] \<longrightarrow>
          (\<forall>x \<in> set pre. devengamiento_saldo s' (dv_id x) \<le> 1 / 100)"
  proof (intro impI ballI)
    fix x
    assume ne: "filter (\<lambda>a. dc_devengamiento_id a = dv_id d) (nuevas_imputaciones s s') \<noteq> []"
      and x: "x \<in> set pre"
    let ?j = "dv_id x" and ?bj = "devengamiento_saldo s (dv_id x)"
    have r1: "1 / 100 < ?r1"
      using ne unfolding n fd by (simp split: if_splits)
    have mem: "(?j, ?bj) \<in> set (saldos s pre)"
      using x by (auto simp: saldos_def)
    have fj: "filter (\<lambda>a. dc_devengamiento_id a = ?j) ?n =
                imputaciones cobro_id (if 1 / 100 < ?bj then [(?j, ?bj)] else [])"
      unfolding filter_imputaciones [of "\<lambda>k. k = ?j"]
      using reparto_anterior_pagado [OF dis r1 mem] by simp
    show "devengamiento_saldo s' (dv_id x) \<le> 1 / 100"
    proof (cases "1 / 100 < ?bj")
      case True
      then have "sum_list (map dc_monto (filter (\<lambda>a. dc_devengamiento_id a = ?j) ?n)) = ?bj"
        unfolding fj by (simp add: imputaciones_def imp_def)
      then have "devengamiento_saldo s' ?j = 0"
        unfolding s' by (rule saldo_agregar_pagado)
      then show ?thesis by simp
    next
      case False
      then have "filter (\<lambda>a. dc_devengamiento_id a = ?j) ?n = []"
        unfolding fj by (simp add: imputaciones_def)
      then have "devengamiento_saldo s' ?j = ?bj"
        unfolding s' by (rule saldo_agregar_sin)
      then show ?thesis using False by simp
    qed
  qed
  show ?thesis using 0 1 3 4 by (intro conjI)
qed

text \<open>
  The second scenario of the specification: 600 paid against 500 for 2024-01 and 500 for
  2024-02; the accrual of 2024-01 comes first although its id is the larger one.
\<close>

theorem imputar_automatico_orden_witness:
  "distinct (map dv_id (devengamientos (db_dos 600)))
   \<and> devengamientos_de_cliente (db_dos 600) 1 = [dev_b] @ dev_a # []
   \<and> imputar_automatico_db (db_dos 600) 1 1 600
       = ((db_dos 600)\<lparr>devengamientos_cobros := [imp 2 1 500, imp 1 1 100]\<rparr>, 0)
   \<and> filter (\<lambda>a. dc_devengamiento_id a = dv_id dev_a)
        (nuevas_imputaciones (db_dos 600)
           ((db_dos 600)\<lparr>devengamientos_cobros := [imp 2 1 500, imp 1 1 100]\<rparr>)) = [imp 1 1 100]
   \<and> devengamiento_saldo ((db_dos 600)\<lparr>devengamientos_cobros := [imp 2 1 500, imp 1 1 100]\<rparr>)
        (dv_id dev_b) = 0"
  using imputar_automatico_orden
    [of "db_dos 600" 1 1 600 "(db_dos 600)\<lparr>devengamientos_cobros := [imp 2 1 500, imp 1 1 100]\<rparr>" 0
        "[dev_b]" dev_a "[]"]
  by (simp add: db_dos_def dev_a_def dev_b_def auto_defs)

section \<open>Payments are not over-allocated\<close>

lemmas cobro_defs = record_cobro_def registrar_cobro_def insertar_cobro_def cliente_exists_def
  nuevo_id_def imputado_def cobro_cien_def

subsection \<open>Totals of one allocation\<close>

lemma nuevo_id_mayor: "i \<in> set ids \<Longrightarrow> i < nuevo_id ids"
  unfolding nuevo_id_def by (induction ids) auto

lemma nuevo_id_fresco: "nuevo_id ids \<notin> set ids"
  using nuevo_id_mayor [of "nuevo_id ids" ids] by auto

lemma imputar_bucle_total:
  "\<exists>n. fst (imputar_bucle c ds s r) = agregar s n \<and> list_all (\<lambda>a. dc_cobro_id a = c) n
       \<and> sum_list (map dc_monto n) = r - snd (imputar_bucle c ds s r)
       \<and> (0 \<le> r \<longrightarrow> 0 \<le> snd (imputar_bucle c ds s r))"
proof (induction ds arbitrary: s r)
  case Nil
  show ?case by (intro exI [of _ "[]"]) simp
next
  case (Cons d ds)
  let ?b = "devengamiento_saldo s (dv_id d)"
  let ?m = "min r ?b"
  let ?s1 = "agregar s [imp (dv_id d) c ?m]"
  show ?case
  proof (cases "r \<le> 1 / 100")
    case True
    then show ?thesis by (intro exI [of _ "[]"]) simp
  next
    case r: False
    show ?thesis
    proof (cases "?b \<le> 1 / 100")
      case True
      then show ?thesis using r Cons.IH [of s r] by simp
    next
      case False
      obtain n where n: "fst (imputar_bucle c ds ?s1 (r - ?m)) = agregar ?s1 n"
        "list_all (\<lambda>a. dc_cobro_id a = c) n"
        "sum_list (map dc_monto n) = (r - ?m) - snd (imputar_bucle c ds ?s1 (r - ?m))"
        "0 \<le> r - ?m \<longrightarrow> 0 \<le> snd (imputar_bucle c ds ?s1 (r - ?m))"
        using Cons.IH [of ?s1 "r - ?m"] by blast
      have eq: "imputar_bucle c (d # ds) s r = imputar_bucle c ds ?s1 (r - ?m)"
        using r False by (simp add: Let_def insertar_imputacion_agregar)
      show ?thesis
        unfolding eq using n
        by (intro exI [of _ "imp (dv_id d) c ?m # n"]) (simp add: imp_def)
    qed
  qed
qed

lemma imputar_manual_bucle_total:
  "\<exists>n. fst (imputar_manual_bucle s0 c ps s r) = agregar s n \<and> list_all (\<lambda>a. dc_cobro_id a = c) n
       \<and> sum_list (map dc_monto n) = r - snd (imputar_manual_bucle s0 c ps s r)
       \<and> (- (1 / 100) \<le> r \<longrightarrow> - (1 / 100) \<le> snd (imputar_manual_bucle s0 c ps s r))"
proof (induction ps arbitrary: s r)
  case Nil
  show ?case by (intro exI [of _ "[]"]) simp
next
  case (Cons p ps)
  show ?case
  proof (cases p)
    case Malformada
    then show ?thesis using Cons.IH [of s r] by simp
  next
    case (Par did monto)
    let ?b = "devengamiento_saldo s0 did"
    let ?m1 = "if monto > ?b + 1 / 100 then ?b else monto"
    let ?m2 = "if ?m1 > r + 1 / 100 then r else ?m1"
    let ?s1 = "agregar s [imp did c ?m2]"
    have m2: "?m2 \<le> r + 1 / 100" by simp
    show ?thesis
    proof (cases "monto \<le> 0 \<or> \<not> devengamiento_exists s0 did \<or> ?m2 \<le> 0")
      case True
      then have "imputar_manual_bucle s0 c (p # ps) s r = imputar_manual_bucle s0 c ps s r"
        unfolding Par by (auto simp: Let_def)
      then show ?thesis using Cons.IH [of s r] by simp
    next
      case go: False
      show ?thesis
      proof (cases "r - ?m2 \<le> 1 / 100")
        case True
        then have eq: "imputar_manual_bucle s0 c (p # ps) s r = (?s1, r - ?m2)"
          unfolding Par using go by (simp add: Let_def insertar_imputacion_agregar)
        show ?thesis
          unfolding eq using m2
          by (intro exI [of _ "[imp did c ?m2]"]) (simp add: imp_def)
      next
        case False
        then have eq: "imputar_manual_bucle s0 c (p # ps) s r
                         = imputar_manual_bucle s0 c ps ?s1 (r - ?m2)"
          unfolding Par using go by (simp add: Let_def insertar_imputacion_agregar)
        obtain n where n: "fst (imputar_manual_bucle s0 c ps ?s1 (r - ?m2)) = agregar ?s1 n"
          "list_all (\<lambda>a. dc_cobro_id a = c) n"
          "sum_list (map dc_monto n) = (r - ?m2) - snd (imputar_manual_bucle s0 c ps ?s1 (r - ?m2))"
          "- (1 / 100) \<le> r - ?m2 \<longrightarrow> - (1 / 100) \<le> snd (imputar_manual_bucle s0 c ps ?s1 (r - ?m2))"
          using Cons.IH [of ?s1 "r - ?m2"] by blast
        have "- (1 / 100) \<le> r - ?m2" using False by linarith
        then show ?thesis
          unfolding eq using n
          by (intro exI [of _ "imp did c ?m2 # n"]) (simp add: imp_def)
      qed
    qed
  qed
qed

subsection \<open>Every operation preserves the state of the payments\<close>

lemma libro_valido_tablas:
  "cobros s' = cobros s \<Longrightarrow> devengamientos_cobros s' = devengamientos_cobros s \<Longrightarrow>
   libro_valido s' = libro_valido s"
  by (simp add: libro_valido_def imputaciones_con_cobro_def cobros_acotados_def imputado_def)

lemma imputado_agregar:
  "imputado (agregar s n) c = imputado s c + sum_list (map dc_monto (filter (\<lambda>a. dc_cobro_id a = c) n))"
  by (simp add: imputado_def agregar_def)

lemma imputado_insertar_cobro: "imputado (insertar_cobro s cl f i) c = imputado s c"
  by (simp add: imputado_def insertar_cobro_def)

lemma imputado_sin_imputaciones:
  "imputaciones_con_cobro s \<Longrightarrow> c \<notin> cb_id ` set (cobros s) \<Longrightarrow> imputado s c = 0"
proof -
  assume "imputaciones_con_cobro s" "c \<notin> cb_id ` set (cobros s)"
  then have "filter (\<lambda>a. dc_cobro_id a = c) (devengamientos_cobros s) = []"
    by (auto simp: imputaciones_con_cobro_def list_all_iff filter_empty_conv)
  then show ?thesis by (simp add: imputado_def)
qed

lemma pago_valido:
  assumes inv: "libro_valido s"
    and n: "list_all (\<lambda>a. dc_cobro_id a = nuevo_id (map cb_id (cobros s))) n"
    and tot: "0 < importe \<longrightarrow> sum_list (map dc_monto n) \<le> importe + 1 / 100"
  shows "libro_valido (agregar (insertar_cobro s cl f importe) n)"
proof -
  let ?k = "nuevo_id (map cb_id (cobros s))"
  let ?s1 = "insertar_cobro s cl f importe"
  let ?s2 = "agregar ?s1 n"
  have fk: "imputaciones_con_cobro s" and ac: "cobros_acotados s"
    using inv by (simp_all add: libro_valido_def)
  have fresh: "?k \<notin> cb_id ` set (cobros s)"
    using nuevo_id_fresco [of "map cb_id (cobros s)"] by simp
  have cob: "cobros ?s2 = cobros s @ [\<lparr>cb_id = ?k, cb_cliente_id = cl, cb_fecha = f, cb_importe = importe\<rparr>]"
    by (simp add: agregar_def insertar_cobro_def)
  have imps: "devengamientos_cobros ?s2 = devengamientos_cobros s @ n"
    by (simp add: agregar_def insertar_cobro_def)
  have all_n: "filter (\<lambda>a. dc_cobro_id a = ?k) n = n"
    using n by (simp add: list_all_iff filter_id_conv)
  have none_n: "\<And>c. c \<noteq> ?k \<Longrightarrow> filter (\<lambda>a. dc_cobro_id a = c) n = []"
    using n by (auto simp: list_all_iff filter_empty_conv)
  have new: "imputado ?s2 ?k = sum_list (map dc_monto n)"
    using imputado_sin_imputaciones [OF fk fresh]
    by (simp add: imputado_agregar imputado_insertar_cobro all_n)
  have old: "\<And>c. c \<in> set (cobros s) \<Longrightarrow> imputado ?s2 (cb_id c) = imputado s (cb_id c)"
  proof -
    fix c assume "c \<in> set (cobros s)"
    then have "cb_id c \<in> cb_id ` set (cobros s)" by (rule imageI)
    then have "cb_id c \<noteq> ?k" using fresh by metis
    then show "imputado ?s2 (cb_id c) = imputado s (cb_id c)"
      by (simp add: imputado_agregar imputado_insertar_cobro none_n)
  qed
  have 1: "imputaciones_con_cobro ?s2"
    using fk n unfolding imputaciones_con_cobro_def imps cob by (auto simp: list_all_iff)
  have 2: "cobros_acotados ?s2"
    unfolding cobros_acotados_def cob
    using ac old new tot by (auto simp: cobros_acotados_def list_all_iff)
  show ?thesis using 1 2 by (simp add: libro_valido_def)
qed

lemma record_cobro_valido:
  assumes "libro_valido s"
  shows "libro_valido (record_cobro s cl f importe op)"
proof (cases "\<not> cliente_exists s cl \<or> importe \<le> 0")
  case True
  then show ?thesis using assms by (auto simp: record_cobro_def)
next
  case False
  then have pos: "0 < importe" by simp
  let ?k = "nuevo_id (map cb_id (cobros s))"
  let ?s1 = "insertar_cobro s cl f importe"
  show ?thesis
  proof (cases op)
    case Automatico
    let ?al = "reparto importe (saldos ?s1 (devengamientos_de_cliente ?s1 cl))"
    have "record_cobro s cl f importe op = agregar ?s1 (imputaciones ?k ?al)"
      using False Automatico by (simp add: record_cobro_def Let_def imputar_automatico_reparto)
    moreover have "sum_list (map dc_monto (imputaciones ?k ?al)) \<le> importe + 1 / 100"
      using reparto_total_le [of importe] pos by (simp add: total_imputaciones add_increasing2)
    ultimately show ?thesis
      using pago_valido [OF assms cobro_imputaciones] by simp
  next
    case (Manual pairs)
    show ?thesis
    proof (cases "filter (\<lambda>d. dv_cliente_id d = cl) (devengamientos ?s1) = []")
      case True
      then have "record_cobro s cl f importe op = agregar ?s1 []"
        using False Manual by (simp add: record_cobro_def Let_def imputar_manual_def)
      then show ?thesis using pago_valido [OF assms, of "[]"] by simp
    next
      case ne: False
      obtain n where n: "fst (imputar_manual_bucle ?s1 ?k pairs ?s1 importe) = agregar ?s1 n"
        "list_all (\<lambda>a. dc_cobro_id a = ?k) n"
        "sum_list (map dc_monto n) = importe - snd (imputar_manual_bucle ?s1 ?k pairs ?s1 importe)"
        "- (1 / 100) \<le> importe \<longrightarrow> - (1 / 100) \<le> snd (imputar_manual_bucle ?s1 ?k pairs ?s1 importe)"
        using imputar_manual_bucle_total [of ?s1 ?k pairs ?s1 importe] by blast
      have "record_cobro s cl f importe op = agregar ?s1 n"
        using False Manual ne n(1) by (simp add: record_cobro_def Let_def imputar_manual_def)
      moreover have "sum_list (map dc_monto n) \<le> importe + 1 / 100"
        using n(3,4) pos by linarith
      ultimately show ?thesis using pago_valido [OF assms n(2)] by simp
    qed
  next
    case NoImputar
    then have "record_cobro s cl f importe op = agregar ?s1 []"
      using False by (simp add: record_cobro_def Let_def)
    then show ?thesis using pago_valido [OF assms, of "[]"] by simp
  qed
qed

lemma registrar_cobro_valido:
  assumes "libro_valido s"
  shows "libro_valido (registrar_cobro v2 s cl f importe)"
proof (cases "cl = 0 \<or> (v2 \<and> importe \<le> 0) \<or> \<not> cliente_exists s cl")
  case True
  then show ?thesis using assms by (auto simp: registrar_cobro_def)
next
  case False
  let ?k = "nuevo_id (map cb_id (cobros s))"
  let ?s1 = "insertar_cobro s cl f importe"
  let ?ds = "devengamientos_de_cliente ?s1 cl"
  obtain n where n: "fst (imputar_bucle ?k ?ds ?s1 importe) = agregar ?s1 n"
    "list_all (\<lambda>a. dc_cobro_id a = ?k) n"
    "sum_list (map dc_monto n) = importe - snd (imputar_bucle ?k ?ds ?s1 importe)"
    "0 \<le> importe \<longrightarrow> 0 \<le> snd (imputar_bucle ?k ?ds ?s1 importe)"
    using imputar_bucle_total [of ?k ?ds ?s1 importe] by blast
  have a: "cl \<noteq> 0" "\<not> (v2 \<and> importe \<le> 0)" "cliente_exists s cl"
    using False by auto
  have "registrar_cobro v2 s cl f importe = agregar ?s1 n"
    unfolding registrar_cobro_def imputar_automatico_db_def using a n(1) by (simp only: if_False if_True not_True_eq_False)
  moreover have "0 < importe \<longrightarrow> sum_list (map dc_monto n) \<le> importe + 1 / 100"
    using n(3,4) by auto
  ultimately show ?thesis using pago_valido [OF assms n(2)] by simp
qed

lemma procesar_plan_cobros:
  "cobros (fst (procesar_plan vig f a m st p)) = cobros (fst st)"
  "devengamientos_cobros (fst (procesar_plan vig f a m st p)) = devengamientos_cobros (fst st)"
  by (auto simp: procesar_plan_def insertar_devengamiento_def split: prod.splits vigencia.splits)

lemma bucle_cobros:
  "cobros (fst (foldl (procesar_plan vig f a m) st ps)) = cobros (fst st)"
  "devengamientos_cobros (fst (foldl (procesar_plan vig f a m) st ps)) = devengamientos_cobros (fst st)"
  by (induction ps arbitrary: st) (simp_all add: procesar_plan_cobros)

lemma insertar_ajuste_cobros:
  "insertar_ajuste s a = Inr s' \<Longrightarrow>
   cobros s' = cobros s \<and> devengamientos_cobros s' = devengamientos_cobros s"
  by (auto simp: insertar_ajuste_def split: if_splits option.splits)

lemma generar_cobros:
  assumes "generar a m s = Inr r"
  shows "cobros (fst r) = cobros s" "devengamientos_cobros (fst r) = devengamientos_cobros s"
proof -
  have "r = foldl (procesar_plan (vigencia_web a m) (ultimo_dia_mes a m) a m) (s, 0, 0, 0)
              (planes_activos s)"
    using assms unfolding generar_def by (cases "primer_dia_valido a m") simp_all
  then show "cobros (fst r) = cobros s" "devengamientos_cobros (fst r) = devengamientos_cobros s"
    by (simp_all add: bucle_cobros)
qed

lemma generate_devengamientos_for_cobros:
  assumes "generate_devengamientos_for hoy month year s = Inr r"
  shows "cobros (fst r) = cobros s" "devengamientos_cobros (fst r) = devengamientos_cobros s"
proof -
  define mo where "mo = (case month of None \<Rightarrow> fst (snd hoy)
                          | Some m \<Rightarrow> if m = 0 then fst (snd hoy) else m)"
  define ye where "ye = (case year of None \<Rightarrow> fst hoy | Some y \<Rightarrow> if y = 0 then fst hoy else y)"
  have g: "generate_devengamientos_for hoy month year s =
             (if \<not> (1 \<le> mo \<and> mo \<le> 12) then Inl InvalidPeriod
              else if \<not> primer_dia_valido ye mo then Inl ValueError
              else Inr (foldl (procesar_plan (vigencia_cli ye mo) (ye, mo, 1) ye mo)
                          (s, 0, 0, 0) (planes_activos s)))"
    by (simp add: generate_devengamientos_for_def Let_def mo_def ye_def)
  have "r = foldl (procesar_plan (vigencia_cli ye mo) (ye, mo, 1) ye mo) (s, 0, 0, 0)
              (planes_activos s)"
    using assms unfolding g
    by (cases "1 \<le> mo \<and> mo \<le> 12"; cases "primer_dia_valido ye mo") simp_all
  then show "cobros (fst r) = cobros s" "devengamientos_cobros (fst r) = devengamientos_cobros s"
    by (simp_all add: bucle_cobros)
qed

lemma registrar_ajuste_forma:
  "registrar_ajuste s cl f de t mo en re = Inl Rechazado \<or>
   (\<exists>a. registrar_ajuste s cl f de t mo en re = insertar_ajuste s a)"
proof (cases "tipo_map t")
  case None
  then show ?thesis by (simp add: registrar_ajuste_def)
next
  case (Some ts)
  obtain tipo signo where "ts = (tipo, signo)" by (cases ts)
  with Some show ?thesis unfolding registrar_ajuste_def by (simp only: option.case prod.case) metis
qed

lemma registrar_ajuste_cobros:
  assumes "registrar_ajuste s cl f de t mo en re = Inr s'"
  shows "cobros s' = cobros s \<and> devengamientos_cobros s' = devengamientos_cobros s"
proof -
  obtain a where "insertar_ajuste s a = Inr s'"
    using registrar_ajuste_forma [of s cl f de t mo en re] assms by auto
  then show ?thesis by (rule insertar_ajuste_cobros)
qed

lemma registrar_ajuste_web_cobros:
  assumes "registrar_ajuste_web s cl f de m t re = Inr s'"
  shows "cobros s' = cobros s \<and> devengamientos_cobros s' = devengamientos_cobros s"
proof -
  have "registrar_ajuste_web s cl f de m t re = Inl Rechazado \<or>
        (\<exists>a. registrar_ajuste_web s cl f de m t re = insertar_ajuste s a)"
    unfolding registrar_ajuste_web_def by metis
  then obtain a where "insertar_ajuste s a = Inr s'"
    using assms by auto
  then show ?thesis by (rule insertar_ajuste_cobros)
qed

lemma ejecutar_valido:
  assumes inv: "libro_valido s"
  shows "libro_valido (ejecutar s op)"
proof (cases op)
  case (OpRecordCobro cl f i o)
  show ?thesis unfolding OpRecordCobro using inv by (simp add: record_cobro_valido)
next
  case (OpRegistrarCobro v2 cl f i)
  show ?thesis unfolding OpRegistrarCobro using inv by (simp add: registrar_cobro_valido)
next
  case (OpGenerar a m)
  show ?thesis
  proof (cases "generar a m s")
    case (Inl e)
    then show ?thesis using inv OpGenerar by simp
  next
    case (Inr r)
    then show ?thesis
      using inv OpGenerar libro_valido_tablas [OF generar_cobros [OF Inr]] by simp
  qed
next
  case (OpGenerarCli h mo ye)
  show ?thesis
  proof (cases "generate_devengamientos_for h mo ye s")
    case (Inl e)
    then show ?thesis using inv OpGenerarCli by simp
  next
    case (Inr r)
    then show ?thesis
      using inv OpGenerarCli libro_valido_tablas [OF generate_devengamientos_for_cobros [OF Inr]]
      by simp
  qed
next
  case (OpAjuste cl f de t mo en re)
  show ?thesis
  proof (cases "registrar_ajuste s cl f de t mo en re")
    case (Inl e)
    then show ?thesis using inv OpAjuste by simp
  next
    case (Inr s')
    then show ?thesis
      using inv OpAjuste registrar_ajuste_cobros [OF Inr] libro_valido_tablas [of s' s] by simp
  qed
next
  case (OpAjusteWeb cl f de mo t re)
  show ?thesis
  proof (cases "registrar_ajuste_web s cl f de mo t re")
    case (Inl e)
    then show ?thesis using inv OpAjusteWeb by simp
  next
    case (Inr s')
    then show ?thesis
      using inv OpAjusteWeb registrar_ajuste_web_cobros [OF Inr] libro_valido_tablas [of s' s]
      by simp
  qed
qed

lemma libro_vacio_valido:
  "cobros s = [] \<Longrightarrow> devengamientos_cobros s = [] \<Longrightarrow> libro_valido s"
  by (simp add: libro_valido_def imputaciones_con_cobro_def cobros_acotados_def)

lemma secuencia_valida: "libro_valido s \<Longrightarrow> libro_valido (foldl ejecutar s ops)"
  by (induction ops arbitrary: s) (simp_all add: ejecutar_valido)

text \<open>
  C4, as stated: the allocations of a payment never total more than its amount. Manual
  allocation compares with \<^verbatim>\<open>restante + 0.01\<close>: a payment of 100 allocated by the
  directive 7:100.005 on an accrual of balance 300 gets an allocation of 100.005.
\<close>

theorem imputado_acotado_counterexample:
  "foldl ejecutar db_siete [OpRecordCobro 1 (2024, 2, 1) 100 (Manual [Par 7 (20001 / 200)])]
     = db_siete\<lparr>cobros := [cobro_cien], devengamientos_cobros := [imp 7 1 (20001 / 200)]\<rparr>
   \<and> imputado (db_siete\<lparr>cobros := [cobro_cien], devengamientos_cobros := [imp 7 1 (20001 / 200)]\<rparr>)
        (cb_id cobro_cien) = 20001 / 200
   \<and> cb_importe cobro_cien < 20001 / 200"
  by (simp add: db_siete_def cobro_defs man_defs)

text \<open>
  C4, amended. From a ledger in which every allocation belongs to a payment and no payment
  of positive amount is allocated for more than its amount plus 0.01 (the empty ledger is
  one), after any sequence of payment recordings with automatic or manual allocation, of
  generations and of adjustments, for every payment of positive amount the allocations
  linked to it total at most the amount plus 0.01.
\<close>

theorem imputado_acotado:
  assumes "libro_valido s" and "c \<in> set (cobros (foldl ejecutar s ops))" and "0 < cb_importe c"
  shows "imputado (foldl ejecutar s ops) (cb_id c) \<le> cb_importe c + 1 / 100"
  using secuencia_valida [OF assms(1), of ops] assms(2,3)
  by (simp add: libro_valido_def cobros_acotados_def list_all_iff)

theorem imputado_acotado_witness:
  "libro_valido db_siete
   \<and> cobro_cien \<in> set (cobros (foldl ejecutar db_siete
        [OpRecordCobro 1 (2024, 2, 1) 100 (Manual [Par 7 (20001 / 200)]),
         OpRegistrarCobro True 1 (2024, 3, 1) 500]))
   \<and> 0 < cb_importe cobro_cien
   \<and> imputado (foldl ejecutar db_siete
        [OpRecordCobro 1 (2024, 2, 1) 100 (Manual [Par 7 (20001 / 200)]),
         OpRegistrarCobro True 1 (2024, 3, 1) 500]) (cb_id cobro_cien) = 20001 / 200
   \<and> imputado (foldl ejecutar db_siete
        [OpRecordCobro 1 (2024, 2, 1) 100 (Manual [Par 7 (20001 / 200)]),
         OpRegistrarCobro True 1 (2024, 3, 1) 500]) 2 = 39999 / 200"
  using imputado_acotado [of db_siete cobro_cien
        "[OpRecordCobro 1 (2024, 2, 1) 100 (Manual [Par 7 (20001 / 200)]),
          OpRegistrarCobro True 1 (2024, 3, 1) 500]"]
  by (simp add: db_siete_def cobro_defs man_defs auto_defs libro_valido_def
        imputaciones_con_cobro_def cobros_acotados_def)

end
